theory Spec2Isabelle
  imports Main
begin

section \<open>Python strings and dictionaries\<close>

text \<open>
  The converter \<^verbatim>\<open>FixedConverter\<close> of \<^verbatim>\<open>fixed_converter.py\<close> works on
  strings, integers, lists and insertion-ordered dictionaries. A Python \<^verbatim>\<open>str\<close> is
  modelled as a \<^typ>\<open>string\<close> of ASCII characters (a non-ASCII character of a literal
  is written as its UTF-8 bytes), an \<^verbatim>\<open>int\<close> as \<^typ>\<open>int\<close>, and a \<^verbatim>\<open>dict\<close> as an
  association list with distinct keys whose order is the insertion order.
\<close>

definition lower_char :: "char \<Rightarrow> char" where
  "lower_char c =
     (case map_of (zip ''ABCDEFGHIJKLMNOPQRSTUVWXYZ'' ''abcdefghijklmnopqrstuvwxyz'') c of
        Some d \<Rightarrow> d
      | None \<Rightarrow> c)"

definition upper_char :: "char \<Rightarrow> char" where
  "upper_char c =
     (case map_of (zip ''abcdefghijklmnopqrstuvwxyz'' ''ABCDEFGHIJKLMNOPQRSTUVWXYZ'') c of
        Some d \<Rightarrow> d
      | None \<Rightarrow> c)"

text \<open>\<^verbatim>\<open>s.lower()\<close>\<close>

definition lower :: "string \<Rightarrow> string" where
  "lower s = map lower_char s"

text \<open>\<^verbatim>\<open>s.capitalize()\<close>: first character upper case, the rest lower case.\<close>

definition capitalize :: "string \<Rightarrow> string" where
  "capitalize s = (case s of [] \<Rightarrow> [] | c # cs \<Rightarrow> upper_char c # lower cs)"

text \<open>The ASCII characters for which \<^verbatim>\<open>str.isspace\<close> holds.\<close>

definition is_space :: "char \<Rightarrow> bool" where
  "is_space c \<longleftrightarrow>
     c \<in> set [CHR '' '', CHR 0x09, CHR 0x0A, CHR 0x0B, CHR 0x0C, CHR 0x0D,
              CHR 0x1C, CHR 0x1D, CHR 0x1E, CHR 0x1F]"

text \<open>\<^verbatim>\<open>s.split()\<close>: the maximal runs of characters that are not whitespace.\<close>

fun split_acc :: "string \<Rightarrow> string \<Rightarrow> string list" where
  "split_acc cur [] = (if cur = [] then [] else [cur])"
| "split_acc cur (c # cs) =
     (if is_space c then (if cur = [] then split_acc [] cs else cur # split_acc [] cs)
      else split_acc (cur @ [c]) cs)"

definition split :: "string \<Rightarrow> string list" where
  "split s = split_acc [] s"

text \<open>\<^verbatim>\<open>s.replace(c, "")\<close> for a single character \<^verbatim>\<open>c\<close>.\<close>

definition remove_char :: "char \<Rightarrow> string \<Rightarrow> string" where
  "remove_char c s = filter (\<lambda>d. d \<noteq> c) s"

text \<open>\<^verbatim>\<open>sep.join(parts)\<close>\<close>

fun join :: "string \<Rightarrow> string list \<Rightarrow> string" where
  "join sep [] = []"
| "join sep [x] = x"
| "join sep (x # y # ys) = x @ sep @ join sep (y # ys)"

text \<open>\<^verbatim>\<open>str(n)\<close> for the integers an f-string formats.\<close>

definition digit_char :: "nat \<Rightarrow> char" where
  "digit_char d = ''0123456789'' ! d"

fun str_nat :: "nat \<Rightarrow> string" where
  "str_nat n = (if n < 10 then [digit_char n] else str_nat (n div 10) @ [digit_char (n mod 10)])"

declare str_nat.simps [simp del]

definition str_int :: "int \<Rightarrow> string" where
  "str_int i = (if i < 0 then ''-'' @ str_nat (nat (- i)) else str_nat (nat i))"

text \<open>
  \<^verbatim>\<open>d[k] = v\<close> on a dictionary: an existing key keeps its position, a new key is
  appended.
\<close>

fun dict_set :: "('k \<times> 'v) list \<Rightarrow> 'k \<Rightarrow> 'v \<Rightarrow> ('k \<times> 'v) list" where
  "dict_set [] k v = [(k, v)]"
| "dict_set ((k', v') # d) k v =
     (if k' = k then (k, v) # d else (k', v') # dict_set d k v)"

text \<open>\<^verbatim>\<open>xs.index(x)\<close> where \<^verbatim>\<open>x\<close> occurs in \<^verbatim>\<open>xs\<close>: the position of its first occurrence.\<close>

definition index :: "'a list \<Rightarrow> 'a \<Rightarrow> nat" where
  "index xs x = length (takeWhile (\<lambda>y. y \<noteq> x) xs)"

section \<open>The Hack chip-set catalog\<close>

record chip_spec =
  inputs :: "string list"
  outputs :: "string list"

definition CHIPS :: "(string \<times> chip_spec) list" where
  "CHIPS =
    [(''Nand'', \<lparr>inputs = [''a'', ''b''], outputs = [''out'']\<rparr>),
     (''Not'', \<lparr>inputs = [''in''], outputs = [''out'']\<rparr>),
     (''And'', \<lparr>inputs = [''a'', ''b''], outputs = [''out'']\<rparr>),
     (''Or'', \<lparr>inputs = [''a'', ''b''], outputs = [''out'']\<rparr>),
     (''Xor'', \<lparr>inputs = [''a'', ''b''], outputs = [''out'']\<rparr>),
     (''Mux'', \<lparr>inputs = [''a'', ''b'', ''sel''], outputs = [''out'']\<rparr>),
     (''DMux'', \<lparr>inputs = [''in'', ''sel''], outputs = [''a'', ''b'']\<rparr>),
     (''Not16'', \<lparr>inputs = [''in''], outputs = [''out'']\<rparr>),
     (''And16'', \<lparr>inputs = [''a'', ''b''], outputs = [''out'']\<rparr>),
     (''Or16'', \<lparr>inputs = [''a'', ''b''], outputs = [''out'']\<rparr>),
     (''Mux16'', \<lparr>inputs = [''a'', ''b'', ''sel''], outputs = [''out'']\<rparr>),
     (''Or8Way'', \<lparr>inputs = [''in''], outputs = [''out'']\<rparr>),
     (''Mux4Way16'', \<lparr>inputs = [''a'', ''b'', ''c'', ''d'', ''sel''], outputs = [''out'']\<rparr>),
     (''Mux8Way16'',
        \<lparr>inputs = [''a'', ''b'', ''c'', ''d'', ''e'', ''f'', ''g'', ''h'', ''sel''],
         outputs = [''out'']\<rparr>),
     (''DMux4Way'', \<lparr>inputs = [''in'', ''sel''], outputs = [''a'', ''b'', ''c'', ''d'']\<rparr>),
     (''DMux8Way'',
        \<lparr>inputs = [''in'', ''sel''],
         outputs = [''a'', ''b'', ''c'', ''d'', ''e'', ''f'', ''g'', ''h'']\<rparr>),
     (''HalfAdder'', \<lparr>inputs = [''a'', ''b''], outputs = [''sum'', ''carry'']\<rparr>),
     (''Halfadder'', \<lparr>inputs = [''a'', ''b''], outputs = [''sum'', ''carry'']\<rparr>),
     (''FullAdder'', \<lparr>inputs = [''a'', ''b'', ''c''], outputs = [''sum'', ''carry'']\<rparr>),
     (''Add16'', \<lparr>inputs = [''a'', ''b''], outputs = [''out'']\<rparr>),
     (''Inc16'', \<lparr>inputs = [''in''], outputs = [''out'']\<rparr>),
     (''ALU'',
        \<lparr>inputs = [''x'', ''y'', ''zx'', ''nx'', ''zy'', ''ny'', ''f'', ''no''],
         outputs = [''out'', ''zr'', ''ng'']\<rparr>),
     (''DFF'', \<lparr>inputs = [''in''], outputs = [''out'']\<rparr>),
     (''Bit'', \<lparr>inputs = [''in'', ''load''], outputs = [''out'']\<rparr>),
     (''Register'', \<lparr>inputs = [''in'', ''load''], outputs = [''out'']\<rparr>),
     (''RAM8'', \<lparr>inputs = [''in'', ''load'', ''address''], outputs = [''out'']\<rparr>),
     (''RAM64'', \<lparr>inputs = [''in'', ''load'', ''address''], outputs = [''out'']\<rparr>),
     (''RAM512'', \<lparr>inputs = [''in'', ''load'', ''address''], outputs = [''out'']\<rparr>),
     (''RAM4K'', \<lparr>inputs = [''in'', ''load'', ''address''], outputs = [''out'']\<rparr>),
     (''RAM16K'', \<lparr>inputs = [''in'', ''load'', ''address''], outputs = [''out'']\<rparr>),
     (''PC'', \<lparr>inputs = [''in'', ''load'', ''inc'', ''reset''], outputs = [''out'']\<rparr>)]"

text \<open>
  \<^verbatim>\<open>HackChipAPI.get_chip_spec\<close>. The converter also calls it with its own
  \<^verbatim>\<open>chip_name\<close>, which is \<^verbatim>\<open>None\<close> for a removed type: the argument is an option.
\<close>

definition get_chip_spec :: "string option \<Rightarrow> chip_spec option" where
  "get_chip_spec chip_name = (case chip_name of None \<Rightarrow> None | Some n \<Rightarrow> map_of CHIPS n)"

definition is_valid_chip :: "string \<Rightarrow> bool" where
  "is_valid_chip chip_name \<longleftrightarrow> map_of CHIPS chip_name \<noteq> None"

section \<open>The input graph and the converter's state\<close>

record wire =
  source_pin_id :: int
  source_owner_id :: int
  target_pin_id :: int
  target_owner_id :: int

text \<open>A top-level pin of the JSON document: the keys \<^verbatim>\<open>ID\<close>, \<^verbatim>\<open>Name\<close>, \<^verbatim>\<open>BitCount\<close>.\<close>

record pin =
  pin_ID :: int
  pin_Name :: string
  pin_BitCount :: int

text \<open>
  An entry of \<^verbatim>\<open>SubChips\<close>: \<^verbatim>\<open>Name\<close>, \<^verbatim>\<open>ID\<close> and the pin ids of
  \<^verbatim>\<open>OutputPinColourInfo\<close> (empty when the key is absent).
\<close>

record subchip =
  sub_Name :: string
  sub_ID :: int
  sub_OutputPinColourInfo :: "int list"

text \<open>
  The JSON document. \<^verbatim>\<open>Name\<close> may be absent (\<^verbatim>\<open>json_data.get("Name", ...)\<close>); an
  absent list is the empty list.
\<close>

record json_data =
  Name :: "string option"
  InputPins :: "pin list"
  OutputPins :: "pin list"
  SubChips :: "subchip list"
  Wires :: "wire list"

record component =
  comp_name :: string
  comp_id :: int
  output_pin_ids :: "int list"
  input_wires :: "(int \<times> wire list) list"
  output_wires :: "(int \<times> wire list) list"
  input_pin_names :: "(int \<times> string) list"
  output_pin_names :: "(int \<times> string) list"

record converter =
  data :: json_data
  warnings :: "string list"
  chip_name :: "string option"
  input_pins :: "(int \<times> pin) list"
  output_pins :: "(int \<times> pin) list"
  components :: "(int \<times> component) list"
  wires :: "wire list"
  wire_counter :: nat
  wire_name_map :: "((int \<times> int) \<times> string) list"

datatype py_error = KeyError

section \<open>Name normalisation\<close>

text \<open>
  \<^verbatim>\<open>_normalize_chip_name\<close>. The alias table is looked up after the separators
  \<^verbatim>\<open>-\<close> and \<^verbatim>\<open>_\<close> have been removed from the name. A name the table maps to
  \<^verbatim>\<open>None\<close> is a removed type: the function appends a warning and returns \<^verbatim>\<open>None\<close>.
  The only state the function touches is the list of warnings, passed and returned.
\<close>

definition name_map :: "(string \<times> string option) list" where
  "name_map =
    [(''NAND'', Some ''Nand''), (''NOT'', Some ''Not''), (''AND'', Some ''And''),
     (''OR'', Some ''Or''), (''XOR'', Some ''Xor''), (''MUX'', Some ''Mux''),
     (''DMUX'', Some ''DMux''),
     (''8-1BIT'', None), (''1-8BIT'', None), (''Splitter8'', None), (''Bus8'', None)]"

definition clean_name :: "string \<Rightarrow> string" where
  "clean_name name =
     (let name1 = (if CHR '' '' \<in> set name then concat (map capitalize (split name)) else name)
      in remove_char (CHR ''_'') (remove_char (CHR ''-'') name1))"

definition unsupported_warning :: "string \<Rightarrow> string" where
  "unsupported_warning name =
     ''WARNING: Chip '' @ [CHR 0x27] @ name @ [CHR 0x27] @
     '' nao existe no Hack chip-set. Sera ignorado.''"

definition not_found_warning :: "string \<Rightarrow> string" where
  "not_found_warning mapped =
     ''WARNING: Chip '' @ [CHR 0x27] @ mapped @ [CHR 0x27] @
     '' nao encontrado na API do Hack chip-set.''"

definition normalize_chip_name :: "string list \<Rightarrow> string \<Rightarrow> string option \<times> string list" where
  "normalize_chip_name ws name0 =
     (let name = clean_name name0;
          mapped = (case map_of name_map name of None \<Rightarrow> Some name | Some m \<Rightarrow> m)
      in case mapped of
           None \<Rightarrow> (None, ws @ [unsupported_warning name])
         | Some m \<Rightarrow>
             (Some m, if \<not> is_valid_chip m then ws @ [not_found_warning m] else ws))"

section \<open>Indexing the graph\<close>

text \<open>\<^verbatim>\<open>Component.__init__\<close>\<close>

definition Component :: "subchip \<Rightarrow> component" where
  "Component subchip_data =
     \<lparr>comp_name = sub_Name subchip_data, comp_id = sub_ID subchip_data,
      output_pin_ids = sub_OutputPinColourInfo subchip_data,
      input_wires = [], output_wires = [], input_pin_names = [], output_pin_names = []\<rparr>"

text \<open>\<^verbatim>\<open>d[k].append(w)\<close> on a \<^verbatim>\<open>defaultdict(list)\<close>\<close>

definition append_wire :: "(int \<times> wire list) list \<Rightarrow> int \<Rightarrow> wire \<Rightarrow> (int \<times> wire list) list" where
  "append_wire d k w = dict_set d k ((case map_of d k of None \<Rightarrow> [] | Some ws \<Rightarrow> ws) @ [w])"

text \<open>The body of the loop of \<^verbatim>\<open>_map_wires_to_components\<close>, and the loop.\<close>

definition map_wire :: "(int \<times> component) list \<Rightarrow> wire \<Rightarrow> (int \<times> component) list" where
  "map_wire cs w =
     (let cs1 = (case map_of cs (target_owner_id w) of
                   None \<Rightarrow> cs
                 | Some cmp \<Rightarrow>
                     dict_set cs (target_owner_id w)
                       (cmp\<lparr>input_wires := append_wire (input_wires cmp) (target_pin_id w) w\<rparr>))
      in case map_of cs1 (source_owner_id w) of
           None \<Rightarrow> cs1
         | Some cmp \<Rightarrow>
             dict_set cs1 (source_owner_id w)
               (cmp\<lparr>output_wires := append_wire (output_wires cmp) (source_pin_id w) w\<rparr>))"

definition map_wires_to_components ::
  "(int \<times> component) list \<Rightarrow> wire list \<Rightarrow> (int \<times> component) list" where
  "map_wires_to_components cs ws = foldl map_wire cs ws"

section \<open>Pin name inference\<close>

text \<open>
  \<^verbatim>\<open>for idx, pin_id in enumerate(pin_ids): names[pin_id] = f(idx)\<close>, where \<^verbatim>\<open>f\<close>
  is the catalog's name at \<^verbatim>\<open>idx\<close> with the fallback \<^verbatim>\<open>in<idx>\<close> or
  \<^verbatim>\<open>out<idx>\<close>, or the generic name.
\<close>

definition catalog_name :: "string list \<Rightarrow> string \<Rightarrow> nat \<Rightarrow> string" where
  "catalog_name expected pfx idx =
     (if idx < length expected then expected ! idx else pfx @ str_nat idx)"

definition generic_name :: "string \<Rightarrow> nat \<Rightarrow> string" where
  "generic_name pfx idx = (if idx > 0 then pfx @ str_nat idx else pfx)"

definition assign_names ::
  "(nat \<Rightarrow> string) \<Rightarrow> (int \<times> string) list \<Rightarrow> int list \<Rightarrow> (int \<times> string) list" where
  "assign_names f d pin_ids =
     foldl (\<lambda>d (idx, pin_id). dict_set d pin_id (f idx)) d (enumerate 0 pin_ids)"

definition infer_generic_pin_names :: "component \<Rightarrow> component" where
  "infer_generic_pin_names cmp =
     cmp\<lparr>input_pin_names :=
            assign_names (generic_name ''in'') (input_pin_names cmp) (map fst (input_wires cmp)),
          output_pin_names :=
            assign_names (generic_name ''out'') (output_pin_names cmp)
              (map fst (output_wires cmp))\<rparr>"

definition arity_warning :: "component \<Rightarrow> nat \<Rightarrow> string \<Rightarrow> nat \<Rightarrow> string" where
  "arity_warning cmp n side m =
     ''WARNING: '' @ comp_name cmp @ '' (ID '' @ str_int (comp_id cmp) @ ''): '' @
     ''Tem '' @ str_nat n @ '' '' @ side @ '', mas API espera '' @ str_nat m"

text \<open>The body of the loop of \<^verbatim>\<open>_infer_pin_names\<close> for one component.\<close>

definition infer_comp :: "string list \<Rightarrow> component \<Rightarrow> component \<times> string list" where
  "infer_comp ws cmp =
     (case normalize_chip_name ws (comp_name cmp) of
        (None, ws1) \<Rightarrow> (cmp, ws1)
      | (Some normalized_name, ws1) \<Rightarrow>
          (case get_chip_spec (Some normalized_name) of
             None \<Rightarrow> (infer_generic_pin_names cmp, ws1)
           | Some spec \<Rightarrow>
               (let input_pin_ids = map fst (input_wires cmp);
                    expected_inputs = inputs spec;
                    ws2 = (if length input_pin_ids > length expected_inputs
                           then ws1 @ [arity_warning cmp (length input_pin_ids) ''inputs''
                                         (length expected_inputs)]
                           else ws1);
                    comp1 = cmp\<lparr>input_pin_names :=
                              assign_names (catalog_name expected_inputs ''in'')
                                (input_pin_names cmp) input_pin_ids\<rparr>;
                    expected_outputs = outputs spec
                in if output_pin_ids comp1 \<noteq> []
                   then (comp1\<lparr>output_pin_names :=
                                 assign_names (catalog_name expected_outputs ''out'')
                                   (output_pin_names comp1) (output_pin_ids comp1)\<rparr>, ws2)
                   else
                     (let out_ids = map fst (output_wires comp1);
                          ws3 = (if length out_ids > length expected_outputs
                                 then ws2 @ [arity_warning comp1 (length out_ids) ''outputs''
                                               (length expected_outputs)]
                                 else ws2)
                      in (comp1\<lparr>output_pin_names :=
                                  assign_names (catalog_name expected_outputs ''out'')
                                    (output_pin_names comp1) out_ids\<rparr>, ws3)))))"

fun infer_pin_names ::
  "string list \<Rightarrow> (int \<times> component) list \<Rightarrow> (int \<times> component) list \<times> string list" where
  "infer_pin_names ws [] = ([], ws)"
| "infer_pin_names ws ((k, cmp) # cs) =
     (let (cmp', ws1) = infer_comp ws cmp;
          (cs', ws2) = infer_pin_names ws1 cs
      in ((k, cmp') # cs', ws2))"

text \<open>\<^verbatim>\<open>FixedConverter.__init__\<close>\<close>

definition FixedConverter :: "json_data \<Rightarrow> converter" where
  "FixedConverter json_data =
     (let (cn, ws0) =
            normalize_chip_name []
              (case Name json_data of None \<Rightarrow> ''UnknownChip'' | Some n \<Rightarrow> n);
          ips = foldl (\<lambda>d p. dict_set d (pin_ID p) p) [] (InputPins json_data);
          ops = foldl (\<lambda>d p. dict_set d (pin_ID p) p) [] (OutputPins json_data);
          cs0 = foldl (\<lambda>d sd. dict_set d (comp_id (Component sd)) (Component sd)) []
                  (SubChips json_data);
          cs1 = map_wires_to_components cs0 (Wires json_data);
          (cs2, ws1) = infer_pin_names ws0 cs1
      in \<lparr>data = json_data, warnings = ws1, chip_name = cn, input_pins = ips,
          output_pins = ops, components = cs2, wires = Wires json_data,
          wire_counter = 0, wire_name_map = []\<rparr>)"

section \<open>Wire names\<close>

text \<open>\<^verbatim>\<open>_get_or_create_wire_name\<close>\<close>

definition get_or_create_wire_name :: "converter \<Rightarrow> int \<Rightarrow> int \<Rightarrow> string \<times> converter" where
  "get_or_create_wire_name s cid pin_id =
     (case map_of (wire_name_map s) (cid, pin_id) of
        Some n \<Rightarrow> (n, s)
      | None \<Rightarrow>
          (let c = wire_counter s + 1; n = ''w'' @ str_nat c
           in (n, s\<lparr>wire_counter := c,
                    wire_name_map := wire_name_map s @ [((cid, pin_id), n)]\<rparr>)))"

text \<open>
  The name \<^verbatim>\<open>_get_wire_source_name\<close> gives a top-level input pin before the bit index:
  lower case, and numbered by the position of the pin's id among the sorted ids of the
  input pins with the same \<^verbatim>\<open>Name\<close>.
\<close>

definition input_source_name :: "converter \<Rightarrow> pin \<Rightarrow> string" where
  "input_source_name s p =
     (let name = lower (pin_Name p);
          same_name_pins = filter (\<lambda>q. pin_Name q = pin_Name p) (map snd (input_pins s))
      in if length same_name_pins > 1
         then (let pin_ids = sort (map pin_ID same_name_pins);
                   idx = index pin_ids (pin_ID p)
               in if idx > 0 then name @ str_nat idx else name)
         else name)"

text \<open>\<^verbatim>\<open>_get_wire_source_name\<close>\<close>

definition get_wire_source_name :: "converter \<Rightarrow> wire \<Rightarrow> string \<times> converter" where
  "get_wire_source_name s w =
     (case map_of (input_pins s) (source_owner_id w) of
        Some p \<Rightarrow>
          (let name = input_source_name s p; bit_count = pin_BitCount p
           in if bit_count > 1 \<and> source_pin_id w < bit_count
              then (name @ ''['' @ str_int (source_pin_id w) @ '']'', s)
              else (name, s))
      | None \<Rightarrow>
          (case map_of (components s) (source_owner_id w) of
             Some c \<Rightarrow> get_or_create_wire_name s (source_owner_id w) (source_pin_id w)
           | None \<Rightarrow> (''unknown'', s)))"

section \<open>The signature\<close>

text \<open>
  The loop of \<^verbatim>\<open>_generate_hdl_signature\<close> over the input pins; \<^verbatim>\<open>seen_names\<close> counts
  the occurrences of each lower-case name.
\<close>

fun input_parts :: "(string \<rightharpoonup> nat) \<Rightarrow> pin list \<Rightarrow> string list" where
  "input_parts seen_names [] = []"
| "input_parts seen_names (p # ps) =
     (let name = lower (pin_Name p);
          bit_count = pin_BitCount p;
          (name', seen') =
             (case seen_names name of
                Some n \<Rightarrow> (name @ str_nat (n + 1 - 1), seen_names(name \<mapsto> n + 1))
              | None \<Rightarrow> (name, seen_names(name \<mapsto> 1)));
          part = (if bit_count > 1 then name' @ ''['' @ str_int bit_count @ '']'' else name')
      in part # input_parts seen' ps)"

definition output_part :: "pin \<Rightarrow> string" where
  "output_part p =
     (let name = remove_char (CHR '' '') (lower (pin_Name p));
          bit_count = pin_BitCount p
      in if bit_count > 1 then name @ ''['' @ str_int bit_count @ '']'' else name)"

definition generate_hdl_signature :: "converter \<Rightarrow> string \<times> string" where
  "generate_hdl_signature s =
     (join '', '' (input_parts Map.empty (map snd (input_pins s))),
      join '', '' (map output_part (map snd (output_pins s))))"

section \<open>Emitting the module\<close>

text \<open>
  The name \<^verbatim>\<open>convert\<close> gives the signal on a connected output pin of a component
  (the body of its loop over the output pins, from \<^verbatim>\<open>connects_to_output\<close> on).
\<close>

definition is_output_target :: "converter \<Rightarrow> wire \<Rightarrow> bool" where
  "is_output_target s w \<longleftrightarrow> map_of (output_pins s) (target_owner_id w) \<noteq> None"

definition output_wire_name ::
  "converter \<Rightarrow> int \<Rightarrow> int \<Rightarrow> wire list \<Rightarrow> string \<times> converter" where
  "output_wire_name s cid pin_id ws =
     (if list_ex (is_output_target s) ws
      then
        (let spec = get_chip_spec (chip_name s);
             output_pin = (case find (is_output_target s) ws of
                             None \<Rightarrow> None
                           | Some w \<Rightarrow> map_of (output_pins s) (target_owner_id w))
         in case output_pin of
              None \<Rightarrow> get_or_create_wire_name s cid pin_id
            | Some op \<Rightarrow>
                (case spec of
                   Some sp \<Rightarrow>
                     (let idx = index (map snd (output_pins s)) op
                      in if idx < length (outputs sp) then (outputs sp ! idx, s)
                         else get_or_create_wire_name s cid pin_id)
                 | None \<Rightarrow> (remove_char (CHR '' '') (lower (pin_Name op)), s)))
      else get_or_create_wire_name s cid pin_id)"

text \<open>The loop of \<^verbatim>\<open>convert\<close> over the input pins of a component.\<close>

fun convert_inputs ::
  "converter \<Rightarrow> component \<Rightarrow> (int \<times> wire list) list \<Rightarrow> string list \<times> converter" where
  "convert_inputs s cmp [] = ([], s)"
| "convert_inputs s cmp ((pin_id, ws) # rest) =
     (case ws of
        [] \<Rightarrow> convert_inputs s cmp rest
      | w # _ \<Rightarrow>
          (let (source_name, s1) = get_wire_source_name s w;
               param_name = (case map_of (input_pin_names cmp) pin_id of
                               Some n \<Rightarrow> n
                             | None \<Rightarrow> ''in'' @ str_int pin_id);
               (conns, s2) = convert_inputs s1 cmp rest
           in ((param_name @ ''='' @ source_name) # conns, s2)))"

text \<open>The loop of \<^verbatim>\<open>convert\<close> over the ordered output pin ids of a component.\<close>

fun convert_outputs ::
  "converter \<Rightarrow> int \<Rightarrow> component \<Rightarrow> int list \<Rightarrow> string list \<times> converter" where
  "convert_outputs s cid cmp [] = ([], s)"
| "convert_outputs s cid cmp (pin_id # rest) =
     (case map_of (output_wires cmp) pin_id of
        None \<Rightarrow> convert_outputs s cid cmp rest
      | Some ws \<Rightarrow>
          (let (wire_name, s1) = output_wire_name s cid pin_id ws;
               param_name = (case map_of (output_pin_names cmp) pin_id of
                               Some n \<Rightarrow> n
                             | None \<Rightarrow> ''out'' @ str_int pin_id);
               (conns, s2) = convert_outputs s1 cid cmp rest
           in ((param_name @ ''='' @ wire_name) # conns, s2)))"

definition skipped_line :: "component \<Rightarrow> string" where
  "skipped_line cmp =
     ''    // SKIPPED: '' @ comp_name cmp @ '' (n'' @ [CHR 0xC3, CHR 0xA3] @
     ''o existe no Hack chip-set)''"

definition no_connections_line :: "string \<Rightarrow> string" where
  "no_connections_line normalized_name =
     ''    // WARNING: '' @ normalized_name @ '' has no connections''"

text \<open>
  The order in which \<^verbatim>\<open>convert\<close> visits the output pins of a component:
  \<^verbatim>\<open>OutputPinColourInfo\<close> when it is not empty, else the keys of its output wires.
\<close>

definition output_pin_ids_ordered :: "component \<Rightarrow> int list" where
  "output_pin_ids_ordered cmp =
     (if output_pin_ids cmp \<noteq> [] then output_pin_ids cmp else map fst (output_wires cmp))"

text \<open>The body of the loop of \<^verbatim>\<open>convert\<close> over the components: one line of the module.\<close>

definition convert_comp :: "converter \<Rightarrow> int \<times> component \<Rightarrow> string \<times> converter" where
  "convert_comp s kc =
     (let cid = fst kc; cmp = snd kc;
          (normalized_name, ws) = normalize_chip_name (warnings s) (comp_name cmp);
          s0 = s\<lparr>warnings := ws\<rparr>
      in case normalized_name of
           None \<Rightarrow> (skipped_line cmp, s0)
         | Some nn \<Rightarrow>
             (let (in_conns, s1) = convert_inputs s0 cmp (input_wires cmp);
                  (out_conns, s2) =
                     convert_outputs s1 cid cmp (output_pin_ids_ordered cmp);
                  connections = in_conns @ out_conns
              in if connections \<noteq> []
                 then (''    '' @ nn @ ''('' @ join '', '' connections @ '');'', s2)
                 else (no_connections_line nn, s2)))"

fun convert_comps :: "converter \<Rightarrow> (int \<times> component) list \<Rightarrow> string list \<times> converter" where
  "convert_comps s [] = ([], s)"
| "convert_comps s (kc # rest) =
     (let (line, s1) = convert_comp s kc;
          (lines, s2) = convert_comps s1 rest
      in (line # lines, s2))"

text \<open>
  \<^verbatim>\<open>convert\<close>. \<^verbatim>\<open>self.data['Name']\<close> raises \<^verbatim>\<open>KeyError\<close> when the document has no
  name; \<^verbatim>\<open>str(None)\<close> is \<^verbatim>\<open>None\<close>.
\<close>

definition convert :: "converter \<Rightarrow> py_error + (string \<times> converter)" where
  "convert s =
     (let (in_sig, out_sig) = generate_hdl_signature s
      in case Name (data s) of
           None \<Rightarrow> Inl KeyError
         | Some original \<Rightarrow>
             (let header =
                    [''// Converted from Digital Logic Sim (Sebastian Lague)'',
                     ''// Original chip: '' @ original,
                     ''// Fixed converter - compliant with Nand2tetris HDL specification'',
                     [],
                     ''CHIP '' @ (case chip_name s of None \<Rightarrow> ''None'' | Some n \<Rightarrow> n) @ '' {'',
                     ''    IN '' @ in_sig @ '';'',
                     ''    OUT '' @ out_sig @ '';'',
                     [],
                     ''    PARTS:''];
                  (body, s') = convert_comps s (components s)
              in Inr (join [CHR 0x0A] (header @ body @ [''}'']), s')))"

text \<open>
  One lowering pass: a fresh converter for the document, then \<^verbatim>\<open>convert\<close>; the
  result is the module text and the warnings collected.
\<close>

definition lowering_pass :: "json_data \<Rightarrow> py_error + (string \<times> string list)" where
  "lowering_pass json_data =
     (case convert (FixedConverter json_data) of
        Inl e \<Rightarrow> Inl e
      | Inr (text, s) \<Rightarrow> Inr (text, warnings s))"

section \<open>Indexed components\<close>

text \<open>
  The components of a document after \<^verbatim>\<open>_map_wires_to_components\<close>, before their pin
  names are inferred.
\<close>

definition indexed_components :: "json_data \<Rightarrow> (int \<times> component) list" where
  "indexed_components json_data =
     map_wires_to_components
       (foldl (\<lambda>d sd. dict_set d (comp_id (Component sd)) (Component sd)) []
          (SubChips json_data))
       (Wires json_data)"

text \<open>
  What a \<^verbatim>\<open>defaultdict(list)\<close> filled by \<^verbatim>\<open>append\<close> guarantees of the wires of a
  component: the keys are distinct and every key has a wire.
\<close>

definition wires_wf :: "(int \<times> wire list) list \<Rightarrow> bool" where
  "wires_wf d \<longleftrightarrow> distinct (map fst d) \<and> list_all (\<lambda>e. snd e \<noteq> []) d"

definition comps_wf :: "(int \<times> component) list \<Rightarrow> bool" where
  "comps_wf cs \<longleftrightarrow>
     list_all (\<lambda>kc. wires_wf (input_wires (snd kc)) \<and> wires_wf (output_wires (snd kc))) cs"

section \<open>Example documents\<close>

definition mk_wire :: "int \<Rightarrow> int \<Rightarrow> int \<Rightarrow> int \<Rightarrow> wire" where
  "mk_wire src_owner src_pin tgt_owner tgt_pin =
     \<lparr>source_pin_id = src_pin, source_owner_id = src_owner,
      target_pin_id = tgt_pin, target_owner_id = tgt_owner\<rparr>"

definition mk_pin :: "int \<Rightarrow> string \<Rightarrow> int \<Rightarrow> pin" where
  "mk_pin i n b = \<lparr>pin_ID = i, pin_Name = n, pin_BitCount = b\<rparr>"

definition mk_subchip :: "string \<Rightarrow> int \<Rightarrow> int list \<Rightarrow> subchip" where
  "mk_subchip n i out_ids = \<lparr>sub_Name = n, sub_ID = i, sub_OutputPinColourInfo = out_ids\<rparr>"

text \<open>An 8-bit input bus \<^verbatim>\<open>DATA\<close> and a 1-bit input \<^verbatim>\<open>EN\<close> feeding an \<^verbatim>\<open>AND\<close>.\<close>

definition doc_bus :: json_data where
  "doc_bus =
     \<lparr>Name = Some ''Pick'',
      InputPins = [mk_pin 1 ''DATA'' 8, mk_pin 2 ''EN'' 1],
      OutputPins = [mk_pin 3 ''OUT'' 1],
      SubChips = [mk_subchip ''AND'' 10 [2]],
      Wires = [mk_wire 1 3 10 0, mk_wire 2 5 10 1, mk_wire 10 2 3 0]\<rparr>"

text \<open>A \<^verbatim>\<open>NOT\<close> whose input wire comes from the id 99, which nothing in the document has.\<close>

definition doc_unknown :: json_data where
  "doc_unknown =
     \<lparr>Name = Some ''Not'',
      InputPins = [mk_pin 1 ''IN'' 1],
      OutputPins = [mk_pin 3 ''OUT'' 1],
      SubChips = [mk_subchip ''NOT'' 10 [1]],
      Wires = [mk_wire 99 0 10 0, mk_wire 10 1 3 0]\<rparr>"

text \<open>
  A module named \<^verbatim>\<open>AND\<close>, a catalog type, whose only output pin is named
  \<^verbatim>\<open>RESULT\<close>: a \<^verbatim>\<open>NAND\<close> and a \<^verbatim>\<open>NOT\<close> wired to it.
\<close>

definition doc_passthrough :: json_data where
  "doc_passthrough =
     \<lparr>Name = Some ''AND'',
      InputPins = [mk_pin 1 ''A'' 1, mk_pin 2 ''B'' 1],
      OutputPins = [mk_pin 3 ''RESULT'' 1],
      SubChips = [mk_subchip ''NAND'' 10 [2], mk_subchip ''NOT'' 11 [1]],
      Wires = [mk_wire 1 0 10 0, mk_wire 2 0 10 1, mk_wire 10 2 11 0, mk_wire 11 1 3 0]\<rparr>"

text \<open>A component of the removed type \<^verbatim>\<open>Bus8\<close>.\<close>

definition doc_removed :: json_data where
  "doc_removed =
     \<lparr>Name = Some ''Not'',
      InputPins = [mk_pin 1 ''IN'' 1],
      OutputPins = [mk_pin 3 ''OUT'' 1],
      SubChips = [mk_subchip ''Bus8'' 10 []],
      Wires = [mk_wire 1 0 10 0, mk_wire 10 1 3 0]\<rparr>"

text \<open>An \<^verbatim>\<open>AND\<close> that no wire reaches.\<close>

definition doc_empty :: json_data where
  "doc_empty =
     \<lparr>Name = Some ''Xor'', InputPins = [], OutputPins = [],
      SubChips = [mk_subchip ''AND'' 10 []], Wires = []\<rparr>"

text \<open>
  Two input pins named \<^verbatim>\<open>IN\<close>, the pin with id 2 registered before the pin with id 1,
  and the same document with the pins registered in the order of their ids.
\<close>

definition doc_duplicate :: json_data where
  "doc_duplicate =
     \<lparr>Name = Some ''Dup'',
      InputPins = [mk_pin 2 ''IN'' 1, mk_pin 1 ''IN'' 1],
      OutputPins = [mk_pin 3 ''OUT'' 1],
      SubChips = [mk_subchip ''AND'' 10 [2]],
      Wires = [mk_wire 2 0 10 0, mk_wire 1 0 10 1, mk_wire 10 2 3 0]\<rparr>"

definition doc_duplicate_ordered :: json_data where
  "doc_duplicate_ordered =
     \<lparr>Name = Some ''Dup'',
      InputPins = [mk_pin 1 ''IN'' 1, mk_pin 2 ''IN'' 1],
      OutputPins = [mk_pin 3 ''OUT'' 1],
      SubChips = [mk_subchip ''AND'' 10 [2]],
      Wires = [mk_wire 1 0 10 0, mk_wire 2 0 10 1, mk_wire 10 2 3 0]\<rparr>"

text \<open>
  An \<^verbatim>\<open>AND\<close> whose \<^verbatim>\<open>OutputPinColourInfo\<close> lists the pin 5 only, and whose pin 7
  drives a \<^verbatim>\<open>NOT\<close>; and that \<^verbatim>\<open>AND\<close> as a component with its output wire.
\<close>

definition doc_undeclared :: json_data where
  "doc_undeclared =
     \<lparr>Name = Some ''Xor'',
      InputPins = [mk_pin 1 ''A'' 1, mk_pin 2 ''B'' 1],
      OutputPins = [mk_pin 3 ''OUT'' 1],
      SubChips = [mk_subchip ''AND'' 10 [5], mk_subchip ''NOT'' 11 [1]],
      Wires = [mk_wire 1 0 10 0, mk_wire 2 0 10 1, mk_wire 10 7 11 0, mk_wire 11 1 3 0]\<rparr>"

definition and_undeclared :: component where
  "and_undeclared =
     (Component (mk_subchip ''AND'' 10 [5]))\<lparr>output_wires := [(7, [mk_wire 10 7 11 0])]\<rparr>"

text \<open>
  An \<^verbatim>\<open>AND\<close> without \<^verbatim>\<open>OutputPinColourInfo\<close>, fed three input wires and driving
  two output pins; and that \<^verbatim>\<open>AND\<close> as a component with its wires.
\<close>

definition doc_overflow :: json_data where
  "doc_overflow =
     \<lparr>Name = Some ''Xor'',
      InputPins = [mk_pin 1 ''A'' 1, mk_pin 2 ''B'' 1, mk_pin 3 ''C'' 1],
      OutputPins = [mk_pin 4 ''OUT'' 1],
      SubChips = [mk_subchip ''AND'' 10 [], mk_subchip ''NOT'' 11 []],
      Wires = [mk_wire 1 0 10 0, mk_wire 2 0 10 1, mk_wire 3 0 10 2, mk_wire 10 3 4 0,
               mk_wire 10 4 11 0]\<rparr>"

definition and_overflow :: component where
  "and_overflow =
     (Component (mk_subchip ''AND'' 10 []))
       \<lparr>input_wires := [(0, [mk_wire 1 0 10 0]), (1, [mk_wire 2 0 10 1]), (2, [mk_wire 3 0 10 2])],
        output_wires := [(3, [mk_wire 10 3 4 0]), (4, [mk_wire 10 4 11 0])]\<rparr>"

text \<open>
  A \<^verbatim>\<open>NOT\<close> whose output pin drives two wires, both to top-level output pins; and a
  \<^verbatim>\<open>NOT\<close> whose output pin drives two further components.
\<close>

definition doc_fanout_outputs :: json_data where
  "doc_fanout_outputs =
     \<lparr>Name = Some ''Fan'',
      InputPins = [mk_pin 1 ''X'' 1],
      OutputPins = [mk_pin 20 ''Y'' 1, mk_pin 21 ''Z'' 1],
      SubChips = [mk_subchip ''NOT'' 10 []],
      Wires = [mk_wire 1 0 10 0, mk_wire 10 1 20 0, mk_wire 10 1 21 0]\<rparr>"

definition doc_fanout :: json_data where
  "doc_fanout =
     \<lparr>Name = Some ''Fan'',
      InputPins = [mk_pin 1 ''X'' 1],
      OutputPins = [mk_pin 20 ''Y'' 1, mk_pin 21 ''Z'' 1],
      SubChips = [mk_subchip ''NOT'' 10 [], mk_subchip ''NOT'' 11 [], mk_subchip ''NOT'' 12 []],
      Wires = [mk_wire 1 0 10 0, mk_wire 10 1 11 0, mk_wire 10 1 12 0,
               mk_wire 11 1 20 0, mk_wire 12 1 21 0]\<rparr>"

text \<open>The \<^verbatim>\<open>Bus8\<close> of \<^const>\<open>doc_removed\<close> as a component with its wires.\<close>

definition bus_removed :: component where
  "bus_removed =
     (Component (mk_subchip ''Bus8'' 10 []))
       \<lparr>input_wires := [(0, [mk_wire 1 0 10 0])], output_wires := [(1, [mk_wire 10 1 3 0])]\<rparr>"

text \<open>
  As \<^const>\<open>doc_fanout_outputs\<close>, but the pin 1 of the component 10 drives the top-level
  output \<^verbatim>\<open>Y\<close> and the component 11.
\<close>

definition doc_fanout_mixed :: json_data where
  "doc_fanout_mixed =
     \<lparr>Name = Some ''Fan'',
      InputPins = [mk_pin 1 ''X'' 1],
      OutputPins = [mk_pin 20 ''Y'' 1, mk_pin 21 ''Z'' 1],
      SubChips = [mk_subchip ''NOT'' 10 [], mk_subchip ''NOT'' 11 []],
      Wires = [mk_wire 1 0 10 0, mk_wire 10 1 20 0, mk_wire 10 1 11 0, mk_wire 11 1 21 0]\<rparr>"

text \<open>
  The graph of \<^const>\<open>doc_passthrough\<close> in a module named \<^verbatim>\<open>MyAnd\<close>, which is not a
  catalog type.
\<close>

definition doc_passthrough_custom :: json_data where
  "doc_passthrough_custom =
     \<lparr>Name = Some ''MyAnd'',
      InputPins = [mk_pin 1 ''A'' 1, mk_pin 2 ''B'' 1],
      OutputPins = [mk_pin 3 ''RESULT'' 1],
      SubChips = [mk_subchip ''NAND'' 10 [2], mk_subchip ''NOT'' 11 [1]],
      Wires = [mk_wire 1 0 10 0, mk_wire 2 0 10 1, mk_wire 10 2 11 0, mk_wire 11 1 3 0]\<rparr>"

text \<open>
  A module named \<^verbatim>\<open>AND\<close> with two output pins, \<^verbatim>\<open>RESULT\<close> and \<^verbatim>\<open>AUX\<close>, each
  driven by one component; the catalog type \<^verbatim>\<open>And\<close> declares one output.
\<close>

definition doc_passthrough_beyond :: json_data where
  "doc_passthrough_beyond =
     \<lparr>Name = Some ''AND'',
      InputPins = [mk_pin 1 ''A'' 1, mk_pin 2 ''B'' 1],
      OutputPins = [mk_pin 3 ''RESULT'' 1, mk_pin 4 ''AUX'' 1],
      SubChips = [mk_subchip ''AND'' 10 [2], mk_subchip ''NAND'' 11 [2]],
      Wires = [mk_wire 1 0 10 0, mk_wire 2 0 10 1, mk_wire 1 0 11 0, mk_wire 2 0 11 1,
               mk_wire 10 2 3 0, mk_wire 11 2 4 0]\<rparr>"

text \<open>
  Two 8-bit input pins named \<^verbatim>\<open>IN\<close>, the one with id 2 registered first, each with a
  wire from its bit 3.
\<close>

definition doc_duplicate_bus :: json_data where
  "doc_duplicate_bus =
     \<lparr>Name = Some ''Dup'',
      InputPins = [mk_pin 2 ''IN'' 8, mk_pin 1 ''IN'' 8],
      OutputPins = [mk_pin 3 ''OUT'' 1],
      SubChips = [mk_subchip ''AND'' 10 [2]],
      Wires = [mk_wire 2 3 10 0, mk_wire 1 3 10 1, mk_wire 10 2 3 0]\<rparr>"

section \<open>The table of internal identifiers\<close>

text \<open>
  The table is well formed when no key occurs twice and its identifiers, in the order of
  their allocation, are \<^verbatim>\<open>w1\<close>, \<^verbatim>\<open>w2\<close>, ... up to the counter.
\<close>

definition alloc_ok :: "converter \<Rightarrow> bool" where
  "alloc_ok s \<longleftrightarrow>
     distinct (map fst (wire_name_map s)) \<and>
     map snd (wire_name_map s) = map (\<lambda>i. ''w'' @ str_nat i) [1..<Suc (wire_counter s)]"

text \<open>
  A later state of the same pass: the registries are the same and the table has only grown
  at its end.
\<close>

definition extends :: "converter \<Rightarrow> converter \<Rightarrow> bool" where
  "extends s s' \<longleftrightarrow>
     take (length (wire_name_map s)) (wire_name_map s') = wire_name_map s \<and>
     input_pins s' = input_pins s \<and> output_pins s' = output_pins s \<and>
     components s' = components s \<and> chip_name s' = chip_name s"

definition step_ok :: "converter \<Rightarrow> converter \<Rightarrow> bool" where
  "step_ok s s' \<longleftrightarrow> extends s s' \<and> (alloc_ok s \<longrightarrow> alloc_ok s')"

section \<open>Basic facts\<close>

lemma map_of_dict_set: "map_of (dict_set d k v) = (map_of d)(k \<mapsto> v)"
  by (induction d k v rule: dict_set.induct) auto

lemma keys_dict_set:
  "map fst (dict_set d k v) = (if k \<in> set (map fst d) then map fst d else map fst d @ [k])"
  by (induction d k v rule: dict_set.induct) auto

lemma distinct_dict_set: "distinct (map fst d) \<Longrightarrow> distinct (map fst (dict_set d k v))"
  by (simp add: keys_dict_set)

text \<open>Normalising a name only appends to the warnings, and its result does not depend on them.\<close>

lemma normalize_fst: "fst (normalize_chip_name ws n) = fst (normalize_chip_name [] n)"
  by (simp add: normalize_chip_name_def Let_def split: option.splits)

lemma normalize_snd: "snd (normalize_chip_name ws n) = ws @ snd (normalize_chip_name [] n)"
  by (simp add: normalize_chip_name_def Let_def split: option.splits)

lemma normalize_None:
  "fst (normalize_chip_name [] n) = None \<Longrightarrow>
   normalize_chip_name ws n = (None, ws @ [unsupported_warning (clean_name n)])"
  by (simp add: normalize_chip_name_def Let_def split: option.splits)

lemma normalize_catalog:
  "fst (normalize_chip_name [] n) = Some nn \<Longrightarrow> get_chip_spec (Some nn) = Some sp \<Longrightarrow>
   normalize_chip_name ws n = (Some nn, ws)"
  by (auto simp add: normalize_chip_name_def Let_def get_chip_spec_def is_valid_chip_def
      split: option.splits)

lemma data_FixedConverter [simp]: "data (FixedConverter g) = g"
  by (simp add: FixedConverter_def Let_def case_prod_unfold)

section \<open>The loops, unfolded\<close>

lemma convert_inputs_Nil_wires:
  "convert_inputs s c ((pin_id, []) # rest) = convert_inputs s c rest"
  by simp

lemma convert_inputs_step:
  "convert_inputs s c ((pin_id, w # ws) # rest) =
     (((case map_of (input_pin_names c) pin_id of Some n \<Rightarrow> n | None \<Rightarrow> ''in'' @ str_int pin_id)
         @ ''='' @ fst (get_wire_source_name s w))
        # fst (convert_inputs (snd (get_wire_source_name s w)) c rest),
      snd (convert_inputs (snd (get_wire_source_name s w)) c rest))"
  by (simp add: case_prod_unfold Let_def)

lemma convert_outputs_skip:
  "map_of (output_wires c) pin_id = None \<Longrightarrow>
   convert_outputs s cid c (pin_id # rest) = convert_outputs s cid c rest"
  by simp

lemma convert_outputs_step:
  "map_of (output_wires c) pin_id = Some ws \<Longrightarrow>
   convert_outputs s cid c (pin_id # rest) =
     (((case map_of (output_pin_names c) pin_id of Some n \<Rightarrow> n | None \<Rightarrow> ''out'' @ str_int pin_id)
         @ ''='' @ fst (output_wire_name s cid pin_id ws))
        # fst (convert_outputs (snd (output_wire_name s cid pin_id ws)) cid c rest),
      snd (convert_outputs (snd (output_wire_name s cid pin_id ws)) cid c rest))"
  by (simp add: case_prod_unfold Let_def)

lemma convert_comps_step:
  "convert_comps s (kc # rest) =
     (fst (convert_comp s kc) # fst (convert_comps (snd (convert_comp s kc)) rest),
      snd (convert_comps (snd (convert_comp s kc)) rest))"
  by (simp add: case_prod_unfold Let_def)

lemma infer_pin_names_step:
  "infer_pin_names ws ((k, c) # cs) =
     ((k, fst (infer_comp ws c)) # fst (infer_pin_names (snd (infer_comp ws c)) cs),
      snd (infer_pin_names (snd (infer_comp ws c)) cs))"
  by (simp add: case_prod_unfold Let_def)

lemma convert_comp_unfold:
  "convert_comp s kc =
     (case fst (normalize_chip_name (warnings s) (comp_name (snd kc))) of
        None \<Rightarrow>
          (skipped_line (snd kc),
           s\<lparr>warnings := snd (normalize_chip_name (warnings s) (comp_name (snd kc)))\<rparr>)
      | Some nn \<Rightarrow>
          (let s0 = s\<lparr>warnings := snd (normalize_chip_name (warnings s) (comp_name (snd kc)))\<rparr>;
               ri = convert_inputs s0 (snd kc) (input_wires (snd kc));
               ro = convert_outputs (snd ri) (fst kc) (snd kc) (output_pin_ids_ordered (snd kc))
           in (if fst ri @ fst ro \<noteq> []
               then ''    '' @ nn @ ''('' @ join '', '' (fst ri @ fst ro) @ '');''
               else no_connections_line nn, snd ro)))"
  by (simp add: convert_comp_def Let_def case_prod_unfold split: option.splits)

section \<open>Warnings are appended by name normalisation only\<close>

lemma gocwn_warnings [simp]: "warnings (snd (get_or_create_wire_name s c p)) = warnings s"
  by (simp add: get_or_create_wire_name_def Let_def split: option.splits)

lemma gwsn_warnings [simp]: "warnings (snd (get_wire_source_name s w)) = warnings s"
  by (simp add: get_wire_source_name_def Let_def split: option.splits)

lemma own_warnings [simp]: "warnings (snd (output_wire_name s c p ws)) = warnings s"
  by (simp add: output_wire_name_def Let_def split: option.splits)

lemma convert_inputs_warnings [simp]: "warnings (snd (convert_inputs s c iw)) = warnings s"
proof (induction s c iw rule: convert_inputs.induct)
  case (1 s c)
  then show ?case by simp
next
  case (2 s c pin_id ws rest)
  show ?case
  proof (cases ws)
    case Nil
    with 2 show ?thesis by simp
  next
    case (Cons w ws')
    obtain n s1 where g: "get_wire_source_name s w = (n, s1)" by (cases "get_wire_source_name s w")
    have "warnings s1 = warnings s" using gwsn_warnings[of s w] g by simp
    moreover have "warnings (snd (convert_inputs s1 c rest)) = warnings s1"
      using 2(2)[OF Cons g[symmetric] refl] by simp
    ultimately show ?thesis using Cons g by (simp add: convert_inputs_step del: convert_inputs.simps)
  qed
qed

lemma convert_outputs_warnings [simp]: "warnings (snd (convert_outputs s cid c ps)) = warnings s"
proof (induction s cid c ps rule: convert_outputs.induct)
  case (1 s cid c)
  then show ?case by simp
next
  case (2 s cid c pin_id rest)
  show ?case
  proof (cases "map_of (output_wires c) pin_id")
    case None
    with 2 show ?thesis by simp
  next
    case (Some ws)
    obtain n s1 where g: "output_wire_name s cid pin_id ws = (n, s1)"
      by (cases "output_wire_name s cid pin_id ws")
    have "warnings s1 = warnings s" using own_warnings[of s cid pin_id ws] g by simp
    moreover have "warnings (snd (convert_outputs s1 cid c rest)) = warnings s1"
      using 2(2)[OF Some g[symmetric] refl] by simp
    ultimately show ?thesis using Some g by (simp add: convert_outputs_step del: convert_outputs.simps)
  qed
qed

lemma convert_comp_warnings:
  "warnings (snd (convert_comp s kc)) = warnings s @ snd (normalize_chip_name [] (comp_name (snd kc)))"
  using normalize_snd[of "warnings s" "comp_name (snd kc)"]
  by (simp add: convert_comp_unfold Let_def split: option.splits)

lemma convert_comps_warnings:
  "warnings (snd (convert_comps s cs)) =
     warnings s @ concat (map (\<lambda>kc. snd (normalize_chip_name [] (comp_name (snd kc)))) cs)"
proof (induction cs arbitrary: s)
  case Nil
  then show ?case by simp
next
  case (Cons kc cs)
  show ?case
    using Cons[of "snd (convert_comp s kc)"] convert_comp_warnings[of s kc]
    by (simp add: convert_comps_step del: convert_comps.simps)
qed

section \<open>The components of a fresh converter\<close>

lemma set_dict_set: "set (dict_set d k v) \<subseteq> insert (k, v) (set d)"
  by (induction d k v rule: dict_set.induct) auto

lemma list_all_dict_set: "list_all P d \<Longrightarrow> P (k, v) \<Longrightarrow> list_all P (dict_set d k v)"
  using set_dict_set[of d k v] by (auto simp: list_all_iff)

lemma append_wire_wf: "wires_wf d \<Longrightarrow> wires_wf (append_wire d k w)"
  by (simp add: wires_wf_def append_wire_def distinct_dict_set list_all_dict_set)

lemma comps_wf_lookup:
  "comps_wf cs \<Longrightarrow> map_of cs k = Some c \<Longrightarrow>
   wires_wf (input_wires c) \<and> wires_wf (output_wires c)"
proof -
  assume wf: "comps_wf cs" and m: "map_of cs k = Some c"
  from m have "(k, c) \<in> set cs" by (rule map_of_SomeD)
  with wf show ?thesis by (force simp: comps_wf_def list_all_iff)
qed

lemma comps_wf_dict_set:
  "comps_wf cs \<Longrightarrow> wires_wf (input_wires c) \<Longrightarrow> wires_wf (output_wires c) \<Longrightarrow>
   comps_wf (dict_set cs k c)"
  by (simp add: comps_wf_def list_all_dict_set)

lemma map_wire_wf: "comps_wf cs \<Longrightarrow> comps_wf (map_wire cs w)"
proof -
  assume wf: "comps_wf cs"
  let ?cs1 = "case map_of cs (target_owner_id w) of
                None \<Rightarrow> cs
              | Some cmp \<Rightarrow>
                  dict_set cs (target_owner_id w)
                    (cmp\<lparr>input_wires := append_wire (input_wires cmp) (target_pin_id w) w\<rparr>)"
  have wf1: "comps_wf ?cs1"
  proof (cases "map_of cs (target_owner_id w)")
    case None
    with wf show ?thesis by simp
  next
    case (Some c)
    with wf comps_wf_lookup[OF wf Some] show ?thesis
      by (simp add: comps_wf_dict_set append_wire_wf)
  qed
  show "comps_wf (map_wire cs w)"
  proof (cases "map_of ?cs1 (source_owner_id w)")
    case None
    with wf1 show ?thesis by (simp add: map_wire_def Let_def)
  next
    case (Some c)
    with wf1 comps_wf_lookup[OF wf1 Some] show ?thesis
      by (simp add: map_wire_def Let_def comps_wf_dict_set append_wire_wf)
  qed
qed

lemma map_wires_wf: "comps_wf cs \<Longrightarrow> comps_wf (map_wires_to_components cs ws)"
  unfolding map_wires_to_components_def
  by (induction ws arbitrary: cs) (simp_all add: map_wire_wf)

lemma index_components_wf:
  "comps_wf d \<Longrightarrow>
   comps_wf (foldl (\<lambda>d sd. dict_set d (comp_id (Component sd)) (Component sd)) d subs)"
  by (induction subs arbitrary: d)
     (simp_all add: comps_wf_dict_set Component_def wires_wf_def)

lemma infer_comp_wires:
  "input_wires (fst (infer_comp ws c)) = input_wires c \<and>
   output_wires (fst (infer_comp ws c)) = output_wires c \<and>
   comp_name (fst (infer_comp ws c)) = comp_name c"
  by (simp add: infer_comp_def infer_generic_pin_names_def Let_def
      split: prod.splits option.splits)

lemma infer_pin_names_wf: "comps_wf cs \<Longrightarrow> comps_wf (fst (infer_pin_names ws cs))"
proof (induction cs arbitrary: ws)
  case Nil
  then show ?case by simp
next
  case (Cons kc cs)
  obtain k c where kc: "kc = (k, c)" by (cases kc)
  from Cons.prems kc have "comps_wf cs" and "wires_wf (input_wires c)"
    and "wires_wf (output_wires c)" by (simp_all add: comps_wf_def)
  with Cons.IH[of "snd (infer_comp ws c)"] kc show ?case
    by (simp add: infer_pin_names_step infer_comp_wires comps_wf_def del: infer_pin_names.simps)
qed

text \<open>
  The wires of every component of a fresh converter have distinct keys, and every key has
  a wire.
\<close>

lemma FixedConverter_comps_wf: "comps_wf (components (FixedConverter g))"
proof -
  have "comps_wf []" by (simp add: comps_wf_def)
  then show ?thesis
    by (simp add: FixedConverter_def Let_def case_prod_unfold
        index_components_wf map_wires_wf infer_pin_names_wf)
qed

text \<open>
  \<^const>\<open>index\<close> stands for \<^verbatim>\<open>list.index\<close>, which raises \<^verbatim>\<open>ValueError\<close> for a
  value that is not in the list. The converter only looks up a value it has taken from the
  list: the output pin among the values of the output pins, and the id of an input pin
  among the ids of the pins with its name.
\<close>

lemma map_of_value_mem: "map_of d k = Some v \<Longrightarrow> v \<in> set (map snd d)"
  by (metis map_of_SomeD set_zip_rightD zip_map_fst_snd)

lemma index_less: "x \<in> set xs \<Longrightarrow> index xs x < length xs \<and> xs ! index xs x = x"
  unfolding index_def
  by (induction xs) auto

lemma input_source_index_defined:
  assumes "map_of (input_pins s) k = Some p"
  shows "pin_ID p \<in>
           set (sort (map pin_ID (filter (\<lambda>q. pin_Name q = pin_Name p) (map snd (input_pins s)))))"
  using map_of_value_mem[OF assms] by auto

section \<open>Assigning pin names\<close>

lemma assign_fold_other:
  "k \<notin> set ids \<Longrightarrow>
   map_of (foldl (\<lambda>d (idx, pin_id). dict_set d pin_id (f idx)) d (enumerate n ids)) k =
     map_of d k"
  by (induction ids arbitrary: d n) (auto simp: map_of_dict_set)

lemma assign_names_other:
  "k \<notin> set ids \<Longrightarrow> map_of (assign_names f d ids) k = map_of d k"
  by (simp add: assign_names_def assign_fold_other)

lemma assign_fold_nth:
  "distinct ids \<Longrightarrow> i < length ids \<Longrightarrow>
   map_of (foldl (\<lambda>d (idx, pin_id). dict_set d pin_id (f idx)) d (enumerate n ids)) (ids ! i) =
     Some (f (n + i))"
proof (induction ids arbitrary: d n i)
  case Nil
  then show ?case by simp
next
  case (Cons x xs)
  show ?case
  proof (cases i)
    case 0
    with Cons.prems show ?thesis by (simp add: assign_fold_other map_of_dict_set)
  next
    case (Suc j)
    with Cons.prems Cons.IH[of j "dict_set d x (f n)" "Suc n"] show ?thesis by simp
  qed
qed

lemma assign_names_nth:
  "distinct ids \<Longrightarrow> i < length ids \<Longrightarrow>
   map_of (assign_names f d ids) (ids ! i) = Some (f i)"
  using assign_fold_nth[of ids i f d 0] by (simp add: assign_names_def)

section \<open>Internal identifiers under fan-out\<close>

lemma take_prefix: "take (length a) b = a \<longleftrightarrow> (\<exists>ys. b = a @ ys)"
proof
  assume "take (length a) b = a"
  then have "b = a @ drop (length a) b" by (metis append_take_drop_id)
  then show "\<exists>ys. b = a @ ys" ..
next
  assume "\<exists>ys. b = a @ ys"
  then show "take (length a) b = a" by auto
qed

lemma extends_iff:
  "extends s s' \<longleftrightarrow>
     (\<exists>ys. wire_name_map s' = wire_name_map s @ ys) \<and>
     input_pins s' = input_pins s \<and> output_pins s' = output_pins s \<and>
     components s' = components s \<and> chip_name s' = chip_name s"
  by (simp add: extends_def take_prefix)

lemma extends_refl [simp]: "extends s s"
  by (simp add: extends_def)

lemma extends_trans: "extends s s1 \<Longrightarrow> extends s1 s2 \<Longrightarrow> extends s s2"
  by (auto simp: extends_iff)

lemma step_ok_refl [simp]: "step_ok s s"
  by (simp add: step_ok_def)

lemma step_ok_trans: "step_ok s s1 \<Longrightarrow> step_ok s1 s2 \<Longrightarrow> step_ok s s2"
  unfolding step_ok_def using extends_trans by blast

lemma step_ok_warnings [simp]: "step_ok s (s\<lparr>warnings := ws\<rparr>)"
  by (simp add: step_ok_def extends_def alloc_ok_def)

lemma extends_lookup:
  assumes "extends s s'" and "map_of (wire_name_map s) k = Some n"
  shows "map_of (wire_name_map s') k = Some n"
proof -
  from assms(1) obtain ys where "wire_name_map s' = wire_name_map s @ ys"
    by (auto simp: extends_iff)
  with assms(2) show ?thesis by (simp add: map_add_def)
qed

lemma gocwn_step_ok: "step_ok s (snd (get_or_create_wire_name s c p))"
proof (cases "map_of (wire_name_map s) (c, p)")
  case None
  then have nk: "(c, p) \<notin> set (map fst (wire_name_map s))"
    by (simp add: map_of_eq_None_iff)
  show ?thesis using None nk
    by (simp add: step_ok_def extends_def alloc_ok_def get_or_create_wire_name_def Let_def)
next
  case (Some n)
  then show ?thesis by (simp add: get_or_create_wire_name_def)
qed

lemma gocwn_lookup:
  "map_of (wire_name_map (snd (get_or_create_wire_name s c p))) (c, p) =
     Some (fst (get_or_create_wire_name s c p))"
  by (simp add: get_or_create_wire_name_def Let_def map_add_def split: option.splits)

lemma gocwn_known:
  "map_of (wire_name_map s) (c, p) = Some n \<Longrightarrow> get_or_create_wire_name s c p = (n, s)"
  by (simp add: get_or_create_wire_name_def)

lemma gocwn_fresh:
  "map_of (wire_name_map s) (c, p) = None \<Longrightarrow>
   fst (get_or_create_wire_name s c p) = ''w'' @ str_nat (wire_counter s + 1) \<and>
   wire_counter (snd (get_or_create_wire_name s c p)) = wire_counter s + 1"
  by (simp add: get_or_create_wire_name_def Let_def)

lemma gwsn_step_ok: "step_ok s (snd (get_wire_source_name s w))"
  by (simp add: get_wire_source_name_def Let_def gocwn_step_ok split: option.splits)

lemma own_step_ok: "step_ok s (snd (output_wire_name s c p ws))"
  by (simp add: output_wire_name_def Let_def gocwn_step_ok split: option.splits)

lemma distinct_key_once:
  "distinct (map fst m) \<Longrightarrow> map_of m k = Some v \<Longrightarrow> length (filter (\<lambda>e. fst e = k) m) = 1"
proof (induction m)
  case Nil
  then show ?case by simp
next
  case (Cons e m)
  show ?case
  proof (cases "fst e = k")
    case True
    from Cons.prems(1) have "fst e \<notin> set (map fst m)" by simp
    then have "\<And>x. x \<in> set m \<Longrightarrow> fst x \<noteq> fst e" by (metis image_eqI list.set_map)
    with True have "filter (\<lambda>e. fst e = k) m = []"
      by (simp add: filter_empty_conv)
    with True show ?thesis by simp
  next
    case False
    with Cons show ?thesis by (cases e) auto
  qed
qed

lemma alloc_ok_value:
  assumes "alloc_ok s" and "map_of (wire_name_map s) k = Some n"
  shows "\<exists>i. 1 \<le> i \<and> i \<le> wire_counter s \<and> n = ''w'' @ str_nat i"
proof -
  from assms(2) have "n \<in> set (map snd (wire_name_map s))"
    by (metis map_of_SomeD set_zip_rightD zip_map_fst_snd)
  with assms(1) have "n \<in> set (map (\<lambda>i. ''w'' @ str_nat i) [1..<Suc (wire_counter s)])"
    by (simp add: alloc_ok_def)
  then show ?thesis by auto
qed

text \<open>
  Every step of \<^const>\<open>convert\<close> leads to a later state of the pass and keeps the table
  well formed, and so does the whole pass from a fresh converter.
\<close>

lemma convert_inputs_step_ok: "step_ok s (snd (convert_inputs s c iw))"
proof (induction iw arbitrary: s)
  case Nil
  then show ?case by simp
next
  case (Cons e iw)
  obtain pin_id ws where e: "e = (pin_id, ws)" by (cases e)
  show ?case
  proof (cases ws)
    case Nil
    with e Cons.IH show ?thesis by simp
  next
    case (Cons w ws')
    have "step_ok s (snd (convert_inputs (snd (get_wire_source_name s w)) c iw))"
      using gwsn_step_ok[of s w] Cons.IH[of "snd (get_wire_source_name s w)"]
      by (rule step_ok_trans)
    with e Cons show ?thesis by (simp add: convert_inputs_step del: convert_inputs.simps)
  qed
qed

lemma convert_outputs_step_ok: "step_ok s (snd (convert_outputs s cid c ps))"
proof (induction ps arbitrary: s)
  case Nil
  then show ?case by simp
next
  case (Cons p ps)
  show ?case
  proof (cases "map_of (output_wires c) p")
    case None
    with Cons.IH show ?thesis by simp
  next
    case (Some ws)
    have "step_ok s (snd (convert_outputs (snd (output_wire_name s cid p ws)) cid c ps))"
      using own_step_ok[of s cid p ws] Cons.IH[of "snd (output_wire_name s cid p ws)"]
      by (rule step_ok_trans)
    with Some show ?thesis by (simp add: convert_outputs_step del: convert_outputs.simps)
  qed
qed

lemma convert_comp_step_ok: "step_ok s (snd (convert_comp s kc))"
proof (cases "fst (normalize_chip_name (warnings s) (comp_name (snd kc)))")
  case None
  then show ?thesis by (simp add: convert_comp_unfold)
next
  case (Some nn)
  let ?s0 = "s\<lparr>warnings := snd (normalize_chip_name (warnings s) (comp_name (snd kc)))\<rparr>"
  let ?s1 = "snd (convert_inputs ?s0 (snd kc) (input_wires (snd kc)))"
  let ?s2 = "snd (convert_outputs ?s1 (fst kc) (snd kc) (output_pin_ids_ordered (snd kc)))"
  have "step_ok s ?s0" by simp
  moreover have "step_ok ?s0 ?s1" by (rule convert_inputs_step_ok)
  moreover have "step_ok ?s1 ?s2" by (rule convert_outputs_step_ok)
  ultimately have "step_ok s ?s2" by (blast intro: step_ok_trans)
  with Some show ?thesis by (simp add: convert_comp_unfold Let_def)
qed

lemma convert_comps_step_ok: "step_ok s (snd (convert_comps s cs))"
proof (induction cs arbitrary: s)
  case Nil
  then show ?case by simp
next
  case (Cons kc cs)
  have "step_ok s (snd (convert_comps (snd (convert_comp s kc)) cs))"
    using convert_comp_step_ok[of s kc] Cons[of "snd (convert_comp s kc)"]
    by (rule step_ok_trans)
  then show ?case by (simp add: convert_comps_step del: convert_comps.simps)
qed

lemma alloc_ok_fresh: "alloc_ok (FixedConverter g)"
  by (simp add: alloc_ok_def FixedConverter_def Let_def case_prod_unfold)

lemma convert_alloc_ok:
  assumes "convert (FixedConverter g) = Inr (text, s')"
  shows "alloc_ok s' \<and> extends (FixedConverter g) s'"
proof -
  from assms have "s' = snd (convert_comps (FixedConverter g) (components (FixedConverter g)))"
    by (auto simp: convert_def Let_def case_prod_unfold split: option.splits)
  then show ?thesis
    using convert_comps_step_ok[of "FixedConverter g" "components (FixedConverter g)"]
      alloc_ok_fresh[of g]
    by (simp add: step_ok_def)
qed

text \<open>
  The resolver of wire sources and the producer's side of \<^verbatim>\<open>convert\<close> reach the table
  through \<^const>\<open>get_or_create_wire_name\<close>: the first for every wire from a component,
  the second for a pin with no wire to a top-level output pin. A pin whose wires all reach
  top-level output pins, in a module whose name is not a catalog type, takes the name of
  the first target and leaves the state as it is.
\<close>

lemma list_ex_find: "list_ex P xs \<longleftrightarrow> find P xs \<noteq> None"
  by (induction xs) auto

lemma find_list_all: "xs \<noteq> [] \<Longrightarrow> list_all P xs \<Longrightarrow> find P xs = Some (hd xs)"
  by (cases xs) auto

lemma gwsn_component:
  "map_of (input_pins s) (source_owner_id w) = None \<Longrightarrow>
   map_of (components s) (source_owner_id w) \<noteq> None \<Longrightarrow>
   get_wire_source_name s w =
     get_or_create_wire_name s (source_owner_id w) (source_pin_id w)"
  by (auto simp: get_wire_source_name_def split: option.splits)

lemma own_internal:
  "\<not> list_ex (is_output_target s) ws \<Longrightarrow>
   output_wire_name s cid pin ws = get_or_create_wire_name s cid pin"
  by (simp add: output_wire_name_def)

lemma own_elided:
  assumes "ws \<noteq> []" and "list_all (is_output_target s) ws"
    and "get_chip_spec (chip_name s) = None"
  shows "output_wire_name s cid pin ws =
           (remove_char (CHR '' '')
              (lower (pin_Name (the (map_of (output_pins s) (target_owner_id (hd ws)))))), s)"
proof -
  have f: "find (is_output_target s) ws = Some (hd ws)"
    using assms(1,2) by (rule find_list_all)
  then have e: "list_ex (is_output_target s) ws" by (simp add: list_ex_find)
  have "is_output_target s (hd ws)"
    using assms(1,2) by (cases ws) auto
  then obtain op where "map_of (output_pins s) (target_owner_id (hd ws)) = Some op"
    by (auto simp: is_output_target_def)
  with f e assms(3) show ?thesis
    by (simp add: output_wire_name_def Let_def)
qed




text \<open>
  When a pin drives a top-level output pin and a component as well
  (\<^const>\<open>doc_fanout_mixed\<close>), the producer's signal is the name of the output pin and
  the consumer's input is an identifier of the table.
\<close>

lemma fanout_mixed_pass:
  "lowering_pass doc_fanout_mixed =
     Inr (''// Converted from Digital Logic Sim (Sebastian Lague)\<newline>// Original chip: Fan\<newline>// Fixed converter - compliant with Nand2tetris HDL specification\<newline>\<newline>CHIP Fan {\<newline>    IN x;\<newline>    OUT y, z;\<newline>\<newline>    PARTS:\<newline>    Not(in=x, out=y);\<newline>    Not(in=w1, out=z);\<newline>}'',
          [not_found_warning ''Fan''])"
  by code_simp

section \<open>An output pin wired to a top-level output\<close>

text \<open>
  C2. The claim asks for the output pin's own name as the producer's signal. The
  signature declares every output pin under its own name, and so does the producer in a
  module whose name is not a catalog type: the pass over \<^const>\<open>doc_passthrough_custom\<close>
  declares \<^verbatim>\<open>OUT result\<close> and emits \<^verbatim>\<open>Not(in=w1, out=result);\<close>. In a module
  whose name is a catalog type the producer takes the catalog's output name at the
  position of the output pin instead: the pass over \<^const>\<open>doc_passthrough\<close> declares
  \<^verbatim>\<open>OUT result\<close> and emits \<^verbatim>\<open>Not(in=w1, out=out);\<close>, so that \<^verbatim>\<open>result\<close> is not
  driven. When the position is beyond the catalog's outputs
  (\<^const>\<open>doc_passthrough_beyond\<close>, the pin \<^verbatim>\<open>AUX\<close>) the producer allocates the
  identifier \<^verbatim>\<open>w1\<close> for a wire to a top-level output pin, and no warning is recorded.
\<close>

theorem pass_through_catalog_name:
  "lowering_pass doc_passthrough =
     Inr (''// Converted from Digital Logic Sim (Sebastian Lague)\<newline>// Original chip: AND\<newline>// Fixed converter - compliant with Nand2tetris HDL specification\<newline>\<newline>CHIP And {\<newline>    IN a, b;\<newline>    OUT result;\<newline>\<newline>    PARTS:\<newline>    Nand(a=a, b=b, out=w1);\<newline>    Not(in=w1, out=out);\<newline>}'',
          []) \<and>
   lowering_pass doc_passthrough_custom =
     Inr (''// Converted from Digital Logic Sim (Sebastian Lague)\<newline>// Original chip: MyAnd\<newline>// Fixed converter - compliant with Nand2tetris HDL specification\<newline>\<newline>CHIP MyAnd {\<newline>    IN a, b;\<newline>    OUT result;\<newline>\<newline>    PARTS:\<newline>    Nand(a=a, b=b, out=w1);\<newline>    Not(in=w1, out=result);\<newline>}'',
          [not_found_warning ''MyAnd'']) \<and>
   lowering_pass doc_passthrough_beyond =
     Inr (''// Converted from Digital Logic Sim (Sebastian Lague)\<newline>// Original chip: AND\<newline>// Fixed converter - compliant with Nand2tetris HDL specification\<newline>\<newline>CHIP And {\<newline>    IN a, b;\<newline>    OUT result, aux;\<newline>\<newline>    PARTS:\<newline>    And(a=a, b=b, out=out);\<newline>    Nand(a=a, b=b, out=w1);\<newline>}'',
          []) \<and>
   wire_name_map (snd (projr (convert (FixedConverter doc_passthrough_beyond)))) =
     [((11, 2), ''w1'')]"
  by code_simp

section \<open>Input pins that share a name\<close>

text \<open>
  C3. The signature numbers the pins that share a lower-case name in registration order;
  the resolver of wire sources numbers the pins that share a \<^verbatim>\<open>Name\<close> in the order of
  their sorted ids. In \<^const>\<open>doc_duplicate\<close> the pin with id 2 is registered first: the
  signature declares it as \<^verbatim>\<open>in\<close> and the pin with id 1 as \<^verbatim>\<open>in1\<close>, while the wire
  from the pin with id 2 resolves to \<^verbatim>\<open>in1\<close> and the wire from the pin with id 1 to
  \<^verbatim>\<open>in\<close>. With the pins registered in the order of their ids
  (\<^const>\<open>doc_duplicate_ordered\<close>) both agree: \<^verbatim>\<open>in\<close> for id 1 and \<^verbatim>\<open>in1\<close> for id 2.
\<close>

theorem duplicate_names_disagree:
  "input_parts Map.empty (map snd (input_pins (FixedConverter doc_duplicate))) = [''in'', ''in1''] \<and>
   map fst (input_pins (FixedConverter doc_duplicate)) = [2, 1] \<and>
   fst (get_wire_source_name (FixedConverter doc_duplicate) (mk_wire 2 0 10 0)) = ''in1'' \<and>
   fst (get_wire_source_name (FixedConverter doc_duplicate) (mk_wire 1 0 10 1)) = ''in'' \<and>
   input_parts Map.empty (map snd (input_pins (FixedConverter doc_duplicate_ordered))) =
     [''in'', ''in1''] \<and>
   fst (get_wire_source_name (FixedConverter doc_duplicate_ordered) (mk_wire 1 0 10 0)) = ''in'' \<and>
   fst (get_wire_source_name (FixedConverter doc_duplicate_ordered) (mk_wire 2 0 10 1)) = ''in1''"
  by code_simp

section \<open>The bit-index rule\<close>

text \<open>
  A wire whose source owner is a top-level input pin \<open>p\<close> resolves to the name the
  resolver gives \<open>p\<close> (\<^const>\<open>input_source_name\<close>) followed by \<^verbatim>\<open>[<sourcePinId>]\<close> if and
  only if the pin's bit count is greater than 1 and the source pin id is less than the bit
  count; otherwise it resolves to the bare name. The converter's state does not change.
\<close>

lemma get_wire_source_name_input_pin:
  assumes "map_of (input_pins s) (source_owner_id w) = Some p"
  shows "get_wire_source_name s w =
           (if pin_BitCount p > 1 \<and> source_pin_id w < pin_BitCount p
            then input_source_name s p @ ''['' @ str_int (source_pin_id w) @ '']''
            else input_source_name s p, s) \<and>
         (fst (get_wire_source_name s w) = input_source_name s p \<longleftrightarrow>
            \<not> (pin_BitCount p > 1 \<and> source_pin_id w < pin_BitCount p))"
  using assms by (simp add: get_wire_source_name_def Let_def)

text \<open>
  C4. The claim asks for the pin's disambiguated name, the one the signature declares it
  under, before the bit index. The resolver numbers the pins that share a name by their
  sorted ids and the signature by registration order (see C3). In
  \<^const>\<open>doc_duplicate_bus\<close> the pin with id 2 is registered first: the signature declares
  it as \<^verbatim>\<open>in[8]\<close> and the pin with id 1 as \<^verbatim>\<open>in1[8]\<close>, while the wire from bit 3 of
  the pin with id 2 resolves to \<^verbatim>\<open>in1[3]\<close> and the wire from bit 3 of the pin with id 1
  to \<^verbatim>\<open>in[3]\<close>. Where no two pins share a name (\<^const>\<open>doc_bus\<close>) the rule holds as
  the claim states it: \<^verbatim>\<open>data[3]\<close> for bit 3 of the 8-bit pin, the bare \<^verbatim>\<open>data\<close> for a
  source pin id 8, and the bare \<^verbatim>\<open>en\<close> for the 1-bit pin with source pin id 5.
\<close>

theorem bit_index_base_name_disagrees:
  "map fst (input_pins (FixedConverter doc_duplicate_bus)) = [2, 1] \<and>
   input_parts Map.empty (map snd (input_pins (FixedConverter doc_duplicate_bus))) =
     [''in[8]'', ''in1[8]''] \<and>
   fst (get_wire_source_name (FixedConverter doc_duplicate_bus) (mk_wire 2 3 10 0)) = ''in1[3]'' \<and>
   fst (get_wire_source_name (FixedConverter doc_duplicate_bus) (mk_wire 1 3 10 1)) = ''in[3]'' \<and>
   input_parts Map.empty (map snd (input_pins (FixedConverter doc_bus))) = [''data[8]'', ''en''] \<and>
   fst (get_wire_source_name (FixedConverter doc_bus) (mk_wire 1 3 10 0)) = ''data[3]'' \<and>
   fst (get_wire_source_name (FixedConverter doc_bus) (mk_wire 1 8 10 0)) = ''data'' \<and>
   fst (get_wire_source_name (FixedConverter doc_bus) (mk_wire 2 5 10 1)) = ''en''"
  by code_simp

section \<open>A component of a removed type\<close>

text \<open>The warnings of a pass, in the order they are recorded.\<close>

lemma infer_comp_append:
  "infer_comp ws c = (fst (infer_comp [] c), ws @ snd (infer_comp [] c))"
proof -
  obtain r w0 where n0: "normalize_chip_name [] (comp_name c) = (r, w0)"
    by (cases "normalize_chip_name [] (comp_name c)")
  have n: "normalize_chip_name ws (comp_name c) = (r, ws @ w0)"
    using normalize_fst[of ws "comp_name c"] normalize_snd[of ws "comp_name c"] n0
    by (simp add: prod_eq_iff)
  show ?thesis
    by (simp add: infer_comp_def n n0 Let_def split: option.splits)
qed

lemma infer_pin_names_warnings:
  "snd (infer_pin_names ws cs) = ws @ concat (map (\<lambda>kc. snd (infer_comp [] (snd kc))) cs)"
proof (induction cs arbitrary: ws)
  case Nil
  then show ?case by simp
next
  case (Cons kc cs)
  obtain k c where kc: "kc = (k, c)" by (cases kc)
  have "snd (infer_comp ws c) = ws @ snd (infer_comp [] c)"
    using infer_comp_append[of ws c] by simp
  with Cons[of "snd (infer_comp ws c)"] kc show ?case
    by (simp add: infer_pin_names_step del: infer_pin_names.simps)
qed

lemma infer_pin_names_names:
  "map (\<lambda>kc. comp_name (snd kc)) (fst (infer_pin_names ws cs)) =
     map (\<lambda>kc. comp_name (snd kc)) cs"
proof (induction cs arbitrary: ws)
  case Nil
  then show ?case by simp
next
  case (Cons kc cs)
  obtain k c where kc: "kc = (k, c)" by (cases kc)
  with Cons[of "snd (infer_comp ws c)"] show ?case
    by (simp add: infer_pin_names_step infer_comp_wires del: infer_pin_names.simps)
qed

lemma FixedConverter_components:
  "components (FixedConverter g) =
     fst (infer_pin_names
            (snd (normalize_chip_name []
                    (case Name g of None \<Rightarrow> ''UnknownChip'' | Some n \<Rightarrow> n)))
            (indexed_components g))"
  by (simp add: FixedConverter_def indexed_components_def Let_def case_prod_unfold)

lemma FixedConverter_warnings:
  "warnings (FixedConverter g) =
     snd (normalize_chip_name [] (case Name g of None \<Rightarrow> ''UnknownChip'' | Some n \<Rightarrow> n)) @
     concat (map (\<lambda>kc. snd (infer_comp [] (snd kc))) (indexed_components g))"
  by (simp add: FixedConverter_def indexed_components_def Let_def case_prod_unfold
      infer_pin_names_warnings)

lemma lowering_pass_warnings:
  assumes "lowering_pass g = Inr (text, ws)"
  shows "ws =
     snd (normalize_chip_name [] (case Name g of None \<Rightarrow> ''UnknownChip'' | Some n \<Rightarrow> n)) @
     concat (map (\<lambda>kc. snd (infer_comp [] (snd kc))) (indexed_components g)) @
     concat (map (\<lambda>kc. snd (normalize_chip_name [] (comp_name (snd kc)))) (indexed_components g))"
proof -
  let ?s = "FixedConverter g"
  from assms have "ws = warnings (snd (convert_comps ?s (components ?s)))"
    by (auto simp: lowering_pass_def convert_def Let_def case_prod_unfold
        split: option.splits sum.splits)
  also have "\<dots> = warnings ?s @
      concat (map (\<lambda>kc. snd (normalize_chip_name [] (comp_name (snd kc)))) (components ?s))"
    by (rule convert_comps_warnings)
  also have "map (\<lambda>kc. snd (normalize_chip_name [] (comp_name (snd kc)))) (components ?s) =
      map (\<lambda>kc. snd (normalize_chip_name [] (comp_name (snd kc)))) (indexed_components g)"
  proof -
    have m: "map (\<lambda>kc. snd (normalize_chip_name [] (comp_name (snd kc)))) xs =
             map (\<lambda>n. snd (normalize_chip_name [] n)) (map (\<lambda>kc. comp_name (snd kc)) xs)"
      for xs :: "(int \<times> component) list"
      by (simp add: comp_def)
    have "map (\<lambda>kc. comp_name (snd kc)) (components ?s) =
          map (\<lambda>kc. comp_name (snd kc)) (indexed_components g)"
      by (simp only: FixedConverter_components infer_pin_names_names)
    then show ?thesis by (simp only: m)
  qed
  finally show ?thesis by (simp add: FixedConverter_warnings)
qed

lemma count_concat_mem:
  "xs \<in> set xss \<Longrightarrow> x \<in> set xs \<Longrightarrow> 1 \<le> count_list (concat xss) x"
proof -
  assume "xs \<in> set xss" and "x \<in> set xs"
  then have "x \<in> set (concat xss)" by auto
  then have "count_list (concat xss) x \<noteq> 0" by (simp add: count_list_0_iff)
  then show ?thesis by simp
qed

text \<open>
  C5, as the code has it. For a component whose name normalises to a removed type, the
  step of pin name inference leaves the component as it is and appends the warning, and
  the step of \<^const>\<open>convert\<close> emits the \<^verbatim>\<open>// SKIPPED\<close> comment line, no
  instantiation, and appends the same warning again: one warning for each normalisation
  of the name. So the warnings of every pass over a document with such a component hold
  its warning at least twice.
\<close>

theorem unsupported_type_skip:
  assumes "fst (normalize_chip_name [] (comp_name c)) = None"
  shows "infer_comp ws c = (c, ws @ [unsupported_warning (clean_name (comp_name c))]) \<and>
         convert_comp s (cid, c) =
           (skipped_line c,
            s\<lparr>warnings := warnings s @ [unsupported_warning (clean_name (comp_name c))]\<rparr>) \<and>
         (\<forall>g text diagnostics.
            (cid, c) \<in> set (indexed_components g) \<and> lowering_pass g = Inr (text, diagnostics) \<longrightarrow>
            2 \<le> count_list diagnostics (unsupported_warning (clean_name (comp_name c))))"
proof -
  let ?m = "unsupported_warning (clean_name (comp_name c))"
  have a: "infer_comp ws c = (c, ws @ [?m])" for ws
    using normalize_None[OF assms] by (simp add: infer_comp_def)
  have b: "convert_comp s (cid, c) = (skipped_line c, s\<lparr>warnings := warnings s @ [?m]\<rparr>)"
    using normalize_None[OF assms] by (simp add: convert_comp_unfold Let_def)
  have c: "2 \<le> count_list ds ?m"
    if mem: "(cid, c) \<in> set (indexed_components g)"
      and pass: "lowering_pass g = Inr (t, ds)" for g t ds
  proof -
    let ?A = "map (\<lambda>kc. snd (infer_comp [] (snd kc))) (indexed_components g)"
    let ?B = "map (\<lambda>kc. snd (normalize_chip_name [] (comp_name (snd kc)))) (indexed_components g)"
    have "[?m] \<in> set ?A" using mem a[of "[]"] by force
    then have ca: "1 \<le> count_list (concat ?A) ?m" by (rule count_concat_mem) simp
    have "[?m] \<in> set ?B" using mem normalize_None[OF assms, of "[]"] by force
    then have cb: "1 \<le> count_list (concat ?B) ?m" by (rule count_concat_mem) simp
    from lowering_pass_warnings[OF pass] ca cb show ?thesis by simp
  qed
  from a b c show ?thesis by blast
qed

text \<open>The \<^verbatim>\<open>Bus8\<close> of \<^const>\<open>doc_removed\<close>.\<close>

theorem unsupported_type_skip_witness:
  "infer_comp [] bus_removed = (bus_removed, [unsupported_warning ''Bus8'']) \<and>
   2 \<le> count_list (snd (projr (lowering_pass doc_removed))) (unsupported_warning ''Bus8'')"
proof -
  have h: "fst (normalize_chip_name [] (comp_name bus_removed)) = None"
    by code_simp
  have e: "clean_name (comp_name bus_removed) = ''Bus8''"
    by code_simp
  have m: "(10, bus_removed) \<in> set (indexed_components doc_removed)"
    by code_simp
  have p: "lowering_pass doc_removed =
             Inr (fst (projr (lowering_pass doc_removed)), snd (projr (lowering_pass doc_removed)))"
    by code_simp
  note t = unsupported_type_skip[OF h, of "[]" "FixedConverter doc_removed" 10]
  from t have a: "infer_comp [] bus_removed =
                    (bus_removed, [unsupported_warning (clean_name (comp_name bus_removed))])"
    by simp
  from t have q: "\<forall>g text diagnostics.
            (10, bus_removed) \<in> set (indexed_components g) \<and>
            lowering_pass g = Inr (text, diagnostics) \<longrightarrow>
            2 \<le> count_list diagnostics (unsupported_warning (clean_name (comp_name bus_removed)))"
    by blast
  from q m p have b: "2 \<le> count_list (snd (projr (lowering_pass doc_removed)))
                          (unsupported_warning (clean_name (comp_name bus_removed)))"
    by blast
  from a b show ?thesis by (simp only: e)
qed

text \<open>
  The claim C5 asks for exactly one diagnostic. The pass over \<^const>\<open>doc_removed\<close>
  returns the warning twice.
\<close>

theorem unsupported_type_two_diagnostics:
  "lowering_pass doc_removed =
     Inr (''// Converted from Digital Logic Sim (Sebastian Lague)\<newline>// Original chip: Not\<newline>// Fixed converter - compliant with Nand2tetris HDL specification\<newline>\<newline>CHIP Not {\<newline>    IN in;\<newline>    OUT out;\<newline>\<newline>    PARTS:\<newline>    // SKIPPED: Bus8 (n'' @ [CHR 0xC3, CHR 0xA3] @ ''o existe no Hack chip-set)\<newline>}'',
          [unsupported_warning ''Bus8'', unsupported_warning ''Bus8''])"
  by code_simp

section \<open>More connected input pins than the catalog declares\<close>

lemma convert_inputs_params:
  assumes "list_all (\<lambda>e. snd e \<noteq> []) iw" and "i < length iw"
  shows "\<exists>src. fst (convert_inputs s c iw) ! i =
           (case map_of (input_pin_names c) (fst (iw ! i)) of
              Some n \<Rightarrow> n | None \<Rightarrow> ''in'' @ str_int (fst (iw ! i))) @ ''='' @ src"
  using assms
proof (induction iw arbitrary: s i)
  case Nil
  then show ?case by simp
next
  case (Cons e iw)
  obtain pin_id ws where e: "e = (pin_id, ws)" by (cases e)
  from Cons.prems(1) e obtain w ws' where ws: "ws = w # ws'" by (cases ws) auto
  show ?case
  proof (cases i)
    case 0
    then show ?thesis using e ws
      by (simp add: convert_inputs_step del: convert_inputs.simps split: option.splits)
  next
    case (Suc j)
    with Cons.prems have "list_all (\<lambda>e. snd e \<noteq> []) iw" and "j < length iw" by auto
    from Cons.IH[OF this, of "snd (get_wire_source_name s w)"] Suc e ws
    show ?thesis
      by (simp add: convert_inputs_step del: convert_inputs.simps split: option.splits)
  qed
qed

lemma infer_comp_catalog_inputs:
  assumes "fst (normalize_chip_name [] (comp_name c)) = Some nn"
    and "get_chip_spec (Some nn) = Some sp"
  shows "input_pin_names (fst (infer_comp ws c)) =
           assign_names (catalog_name (inputs sp) ''in'') (input_pin_names c)
             (map fst (input_wires c)) \<and>
         input_wires (fst (infer_comp ws c)) = input_wires c"
  using assms(2) normalize_catalog[OF assms, of ws]
  by (simp add: infer_comp_def Let_def)

lemma infer_comp_catalog_warnings:
  assumes "fst (normalize_chip_name [] (comp_name c)) = Some nn"
    and "get_chip_spec (Some nn) = Some sp"
  shows "snd (infer_comp ws c) =
           ws @
           (if length (input_wires c) > length (inputs sp)
            then [arity_warning c (length (input_wires c)) ''inputs'' (length (inputs sp))]
            else []) @
           (if output_pin_ids c = [] \<and> length (output_wires c) > length (outputs sp)
            then [arity_warning c (length (output_wires c)) ''outputs'' (length (outputs sp))]
            else [])"
  using assms(2) normalize_catalog[OF assms, of ws]
  by (simp add: infer_comp_def Let_def arity_warning_def)

text \<open>
  C6, as the code has it. Let a component of a catalog type have more connected input
  pins than the catalog declares inputs (the keys of its input wires are distinct and each
  has a wire, as \<open>FixedConverter_comps_wf\<close> shows of every component of a fresh converter). The pin at the first-seen position
  \<open>idx\<close> gets the catalog's name at \<open>idx\<close>, or \<^verbatim>\<open>in<idx>\<close> beyond the catalog's
  inputs, and \<^const>\<open>convert\<close> emits its connection under that name. Pin name inference
  records exactly one warning for the inputs, and one more for the outputs when the
  component has no declared output order and more connected output pins than the catalog
  declares outputs.
\<close>

theorem arity_overflow_fallback:
  assumes "fst (normalize_chip_name [] (comp_name c)) = Some nn"
    and "get_chip_spec (Some nn) = Some sp"
    and "length (input_wires c) > length (inputs sp)"
    and "distinct (map fst (input_wires c))"
    and "list_all (\<lambda>e. snd e \<noteq> []) (input_wires c)"
    and "idx < length (input_wires c)"
  shows "map_of (input_pin_names (fst (infer_comp ws c))) (fst (input_wires c ! idx)) =
           Some (if idx < length (inputs sp) then inputs sp ! idx else ''in'' @ str_nat idx) \<and>
         (\<exists>src. fst (convert_inputs s (fst (infer_comp ws c))
                        (input_wires (fst (infer_comp ws c)))) ! idx =
                  (if idx < length (inputs sp) then inputs sp ! idx else ''in'' @ str_nat idx)
                    @ ''='' @ src) \<and>
         snd (infer_comp ws c) =
           ws @ [arity_warning c (length (input_wires c)) ''inputs'' (length (inputs sp))] @
           (if output_pin_ids c = [] \<and> length (output_wires c) > length (outputs sp)
            then [arity_warning c (length (output_wires c)) ''outputs'' (length (outputs sp))]
            else [])"
proof -
  let ?c' = "fst (infer_comp ws c)"
  let ?n = "if idx < length (inputs sp) then inputs sp ! idx else ''in'' @ str_nat idx"
  have idx': "idx < length (map fst (input_wires c))" using assms(6) by simp
  have names: "map_of (input_pin_names ?c') (fst (input_wires c ! idx)) = Some ?n"
    using infer_comp_catalog_inputs[OF assms(1,2), of ws]
      assign_names_nth[OF assms(4) idx', of "catalog_name (inputs sp) ''in''" "input_pin_names c"]
      assms(6)
    by (simp add: catalog_name_def)
  have iw: "input_wires ?c' = input_wires c"
    using infer_comp_catalog_inputs[OF assms(1,2), of ws] by simp
  have "\<exists>src. fst (convert_inputs s ?c' (input_wires c)) ! idx =
           (case map_of (input_pin_names ?c') (fst (input_wires c ! idx)) of
              Some n \<Rightarrow> n | None \<Rightarrow> ''in'' @ str_int (fst (input_wires c ! idx))) @ ''='' @ src"
    by (rule convert_inputs_params[OF assms(5,6)])
  then have emit: "\<exists>src. fst (convert_inputs s ?c' (input_wires ?c')) ! idx = ?n @ ''='' @ src"
    using names iw by simp
  have warn: "snd (infer_comp ws c) =
           ws @ [arity_warning c (length (input_wires c)) ''inputs'' (length (inputs sp))] @
           (if output_pin_ids c = [] \<and> length (output_wires c) > length (outputs sp)
            then [arity_warning c (length (output_wires c)) ''outputs'' (length (outputs sp))]
            else [])"
    using infer_comp_catalog_warnings[OF assms(1,2), of ws] assms(3) by simp
  from names emit warn show ?thesis by blast
qed

text \<open>The \<^verbatim>\<open>AND\<close> of \<^const>\<open>doc_overflow\<close> and its third input pin.\<close>

theorem arity_overflow_fallback_witness:
  "map_of (input_pin_names (fst (infer_comp [] and_overflow))) 2 = Some ''in2'' \<and>
   snd (infer_comp [] and_overflow) =
     [''WARNING: AND (ID 10): Tem 3 inputs, mas API espera 2'',
      ''WARNING: AND (ID 10): Tem 2 outputs, mas API espera 1'']"
proof -
  have h1: "fst (normalize_chip_name [] (comp_name and_overflow)) = Some ''And''" by code_simp
  have h2: "get_chip_spec (Some ''And'') = Some \<lparr>inputs = [''a'', ''b''], outputs = [''out'']\<rparr>"
    by code_simp
  have h3: "length (input_wires and_overflow) >
              length (inputs \<lparr>inputs = [''a'', ''b''], outputs = [''out'']\<rparr>)"
    by code_simp
  have h4: "distinct (map fst (input_wires and_overflow))" by code_simp
  have h5: "list_all (\<lambda>e. snd e \<noteq> []) (input_wires and_overflow)" by code_simp
  have h6: "2 < length (input_wires and_overflow)" by code_simp
  have e1: "fst (input_wires and_overflow ! 2) = 2" by code_simp
  have e2: "(if 2 < length (inputs \<lparr>inputs = [''a'', ''b''], outputs = [''out'']\<rparr>)
             then inputs \<lparr>inputs = [''a'', ''b''], outputs = [''out'']\<rparr> ! 2
             else ''in'' @ str_nat 2) = ''in2''"
    by code_simp
  have e3: "[] @ [arity_warning and_overflow (length (input_wires and_overflow)) ''inputs''
                   (length (inputs \<lparr>inputs = [''a'', ''b''], outputs = [''out'']\<rparr>))] @
            (if output_pin_ids and_overflow = [] \<and>
                length (output_wires and_overflow) >
                  length (outputs \<lparr>inputs = [''a'', ''b''], outputs = [''out'']\<rparr>)
             then [arity_warning and_overflow (length (output_wires and_overflow)) ''outputs''
                     (length (outputs \<lparr>inputs = [''a'', ''b''], outputs = [''out'']\<rparr>))]
             else []) =
            [''WARNING: AND (ID 10): Tem 3 inputs, mas API espera 2'',
             ''WARNING: AND (ID 10): Tem 2 outputs, mas API espera 1'']"
    by code_simp
  from arity_overflow_fallback[OF h1 h2 h3 h4 h5 h6, of "[]"] e1 e2 e3
  show ?thesis by (simp only:)
qed

text \<open>
  The claim C6 says exactly one arity diagnostic is recorded for the instance. The pass
  over \<^const>\<open>doc_overflow\<close> emits \<^verbatim>\<open>in2=c\<close> and records two, one for each side.
\<close>

theorem arity_overflow_two_diagnostics:
  "lowering_pass doc_overflow =
     Inr (''// Converted from Digital Logic Sim (Sebastian Lague)\<newline>// Original chip: Xor\<newline>// Fixed converter - compliant with Nand2tetris HDL specification\<newline>\<newline>CHIP Xor {\<newline>    IN a, b, c;\<newline>    OUT out;\<newline>\<newline>    PARTS:\<newline>    And(a=a, b=b, in2=c, out=out, out1=w1);\<newline>    Not(in=w1);\<newline>}'',
          [''WARNING: AND (ID 10): Tem 3 inputs, mas API espera 2'',
           ''WARNING: AND (ID 10): Tem 2 outputs, mas API espera 1''])"
  by code_simp

section \<open>A component without connections\<close>

lemma convert_inputs_empty: "fst (convert_inputs s c iw) = [] \<Longrightarrow> snd (convert_inputs s c iw) = s"
  by (induction s c iw rule: convert_inputs.induct) (auto split: list.splits prod.splits)

lemma convert_outputs_empty:
  "fst (convert_outputs s cid c ps) = [] \<Longrightarrow> snd (convert_outputs s cid c ps) = s"
  by (induction s cid c ps rule: convert_outputs.induct) (auto split: option.splits prod.splits)

text \<open>
  C7, as the code has it. A component that is not skipped and has no connection is
  emitted as the comment line \<^verbatim>\<open>// WARNING: <type> has no connections\<close>. The only
  warning its step can add is the one of normalising a name that is not a catalog type:
  none is recorded for the missing connections.
\<close>

theorem empty_connections_comment:
  assumes "normalize_chip_name (warnings s) (comp_name c) = (Some nn, ws)"
    and "fst (convert_inputs (s\<lparr>warnings := ws\<rparr>) c (input_wires c)) = []"
    and "fst (convert_outputs (s\<lparr>warnings := ws\<rparr>) cid c (output_pin_ids_ordered c)) = []"
  shows "convert_comp s (cid, c) = (no_connections_line nn, s\<lparr>warnings := ws\<rparr>) \<and>
         ws = warnings s @ (if is_valid_chip nn then [] else [not_found_warning nn])"
proof -
  let ?s0 = "s\<lparr>warnings := ws\<rparr>"
  let ?ps = "output_pin_ids_ordered c"
  have i: "convert_inputs ?s0 c (input_wires c) = ([], ?s0)"
    using assms(2) convert_inputs_empty[OF assms(2)] by (simp add: prod_eq_iff)
  have o: "convert_outputs ?s0 cid c ?ps = ([], ?s0)"
    using assms(3) convert_outputs_empty[OF assms(3)] by (simp add: prod_eq_iff)
  have w: "ws = warnings s @ (if is_valid_chip nn then [] else [not_found_warning nn])"
    using assms(1) by (auto simp: normalize_chip_name_def Let_def split: option.splits if_splits)
  show ?thesis
    using assms(1) i o w by (simp add: convert_comp_unfold Let_def)
qed

text \<open>The \<^verbatim>\<open>AND\<close> of \<^const>\<open>doc_empty\<close>.\<close>

theorem empty_connections_comment_witness:
  "convert_comp (FixedConverter doc_empty) (10, Component (mk_subchip ''AND'' 10 [])) =
     (''    // WARNING: And has no connections'', FixedConverter doc_empty)"
proof -
  have h1: "normalize_chip_name (warnings (FixedConverter doc_empty))
              (comp_name (Component (mk_subchip ''AND'' 10 []))) = (Some ''And'', [])"
    by code_simp
  have h2: "fst (convert_inputs (FixedConverter doc_empty\<lparr>warnings := []\<rparr>)
                   (Component (mk_subchip ''AND'' 10 []))
                   (input_wires (Component (mk_subchip ''AND'' 10 [])))) = []"
    by code_simp
  have h3: "fst (convert_outputs (FixedConverter doc_empty\<lparr>warnings := []\<rparr>) 10
                   (Component (mk_subchip ''AND'' 10 []))
                   (output_pin_ids_ordered (Component (mk_subchip ''AND'' 10 [])))) = []"
    by code_simp
  have e: "(no_connections_line ''And'', FixedConverter doc_empty\<lparr>warnings := []\<rparr>) =
           (''    // WARNING: And has no connections'', FixedConverter doc_empty)"
    by code_simp
  from empty_connections_comment[OF h1 h2 h3] e show ?thesis by (simp only:)
qed

text \<open>
  The claim C7 asks for a diagnostic. The pass over \<^const>\<open>doc_empty\<close> emits the comment
  line and returns no warning.
\<close>

theorem empty_connections_no_diagnostic:
  "lowering_pass doc_empty =
     Inr (''// Converted from Digital Logic Sim (Sebastian Lague)\<newline>// Original chip: Xor\<newline>// Fixed converter - compliant with Nand2tetris HDL specification\<newline>\<newline>CHIP Xor {\<newline>    IN ;\<newline>    OUT ;\<newline>\<newline>    PARTS:\<newline>    // WARNING: And has no connections\<newline>}'',
          [])"
  by code_simp

section \<open>A wire from an unknown owner\<close>

text \<open>
  C8, as the code has it. A wire whose source owner is neither a top-level input pin nor a
  component resolves to the marker \<^verbatim>\<open>unknown\<close>, and the converter's state, its
  warnings included, does not change: no diagnostic is recorded. The loop over the input
  pins of the component goes on with the remaining pins.
\<close>

theorem unresolved_owner_unknown:
  assumes "map_of (input_pins s) (source_owner_id w) = None"
    and "map_of (components s) (source_owner_id w) = None"
  shows "get_wire_source_name s w = (''unknown'', s) \<and>
         convert_inputs s c ((pin_id, w # ws) # rest) =
           (((case map_of (input_pin_names c) pin_id of
                Some n \<Rightarrow> n | None \<Rightarrow> ''in'' @ str_int pin_id) @ ''=unknown'')
              # fst (convert_inputs s c rest),
            snd (convert_inputs s c rest))"
  using assms
  by (simp add: get_wire_source_name_def convert_inputs_step del: convert_inputs.simps)

text \<open>In \<^const>\<open>doc_unknown\<close> the wire from the id 99 resolves to \<^verbatim>\<open>unknown\<close>.\<close>

theorem unresolved_owner_unknown_witness:
  "get_wire_source_name (FixedConverter doc_unknown) (mk_wire 99 0 10 0) =
     (''unknown'', FixedConverter doc_unknown)"
proof -
  have h1: "map_of (input_pins (FixedConverter doc_unknown))
              (source_owner_id (mk_wire 99 0 10 0)) = None"
    by code_simp
  have h2: "map_of (components (FixedConverter doc_unknown))
              (source_owner_id (mk_wire 99 0 10 0)) = None"
    by code_simp
  from unresolved_owner_unknown[OF h1 h2] show ?thesis by blast
qed

text \<open>
  The claim C8 asks for a diagnostic. The pass over \<^const>\<open>doc_unknown\<close> emits
  \<^verbatim>\<open>Not(in=unknown, out=out);\<close> and returns no warning at all.
\<close>

theorem unresolved_owner_no_diagnostic:
  "lowering_pass doc_unknown =
     Inr (''// Converted from Digital Logic Sim (Sebastian Lague)\<newline>// Original chip: Not\<newline>// Fixed converter - compliant with Nand2tetris HDL specification\<newline>\<newline>CHIP Not {\<newline>    IN in;\<newline>    OUT out;\<newline>\<newline>    PARTS:\<newline>    Not(in=unknown, out=out);\<newline>}'',
          [])"
  by code_simp

section \<open>A connected output pin that the declared order does not list\<close>

lemma map_of_filter_other:
  "k \<noteq> pin \<Longrightarrow> map_of (filter (\<lambda>e. fst e \<noteq> pin) d) k = map_of d k"
  by (induction d) auto

lemma convert_inputs_output_wires:
  "convert_inputs s (c\<lparr>output_wires := d\<rparr>) iw = convert_inputs s c iw"
proof (induction iw arbitrary: s)
  case Nil
  then show ?case by simp
next
  case (Cons e iw)
  obtain pin_id ws where e: "e = (pin_id, ws)" by (cases e)
  show ?case
  proof (cases ws)
    case Nil
    with e Cons.IH show ?thesis by simp
  next
    case (Cons w ws')
    with e Cons.IH[of "snd (get_wire_source_name s w)"] show ?thesis
      by (simp add: convert_inputs_step del: convert_inputs.simps)
  qed
qed

lemma convert_outputs_filter:
  "pin \<notin> set ps \<Longrightarrow>
   convert_outputs s cid (c\<lparr>output_wires := filter (\<lambda>e. fst e \<noteq> pin) (output_wires c)\<rparr>) ps =
     convert_outputs s cid c ps"
proof (induction ps arbitrary: s)
  case Nil
  then show ?case by simp
next
  case (Cons p ps)
  then have "p \<noteq> pin" and "pin \<notin> set ps" by auto
  with Cons.IH show ?case by (simp add: map_of_filter_other split: option.splits)
qed

lemma gocwn_other_key:
  "k \<noteq> (cid, p) \<Longrightarrow>
   map_of (wire_name_map (snd (get_or_create_wire_name s cid p))) k = map_of (wire_name_map s) k"
  by (simp add: get_or_create_wire_name_def Let_def map_add_def split: option.splits)

lemma own_other_key:
  "k \<noteq> (cid, p) \<Longrightarrow>
   map_of (wire_name_map (snd (output_wire_name s cid p ws))) k = map_of (wire_name_map s) k"
  by (simp add: output_wire_name_def Let_def gocwn_other_key split: option.splits)

lemma convert_outputs_other_key:
  "pin \<notin> set ps \<Longrightarrow>
   map_of (wire_name_map (snd (convert_outputs s cid c ps))) (cid, pin) =
     map_of (wire_name_map s) (cid, pin)"
proof (induction ps arbitrary: s)
  case Nil
  then show ?case by simp
next
  case (Cons p ps)
  then have ne: "(cid, pin) \<noteq> (cid, p)" and np: "pin \<notin> set ps" by auto
  show ?case
  proof (cases "map_of (output_wires c) p")
    case None
    with Cons.IH[OF np] show ?thesis by simp
  next
    case (Some ws)
    with Cons.IH[OF np, of "snd (output_wire_name s cid p ws)"] own_other_key[OF ne, of s ws]
    show ?thesis by (simp add: convert_outputs_step del: convert_outputs.simps)
  qed
qed

lemma infer_comp_output_wires:
  assumes "output_pin_ids c \<noteq> []"
    and "fst (normalize_chip_name [] (comp_name c)) = Some nn"
    and "get_chip_spec (Some nn) = Some sp"
  shows "infer_comp ws (c\<lparr>output_wires := d\<rparr>) =
           (fst (infer_comp ws c)\<lparr>output_wires := d\<rparr>, snd (infer_comp ws c))"
  using assms normalize_catalog[OF assms(2,3), of ws]
  by (simp add: infer_comp_def Let_def arity_warning_def)

lemma infer_comp_output_names:
  assumes "output_pin_ids c \<noteq> []" and "pin \<notin> set (output_pin_ids c)"
    and "fst (normalize_chip_name [] (comp_name c)) = Some nn"
    and "get_chip_spec (Some nn) = Some sp"
  shows "map_of (output_pin_names (fst (infer_comp ws c))) pin = map_of (output_pin_names c) pin"
  using assms normalize_catalog[OF assms(3,4), of ws]
  by (simp add: infer_comp_def Let_def assign_names_other)

lemma convert_comp_filter:
  assumes "output_pin_ids c \<noteq> []" and "pin \<notin> set (output_pin_ids c)"
  shows "convert_comp s (cid, c\<lparr>output_wires := filter (\<lambda>e. fst e \<noteq> pin) (output_wires c)\<rparr>) =
           convert_comp s (cid, c)"
proof (cases "fst (normalize_chip_name (warnings s) (comp_name c))")
  case None
  then show ?thesis by (simp add: convert_comp_unfold skipped_line_def)
next
  case (Some nn)
  then show ?thesis
    using assms
    by (simp add: convert_comp_unfold Let_def output_pin_ids_ordered_def
        convert_inputs_output_wires convert_outputs_filter)
qed

text \<open>
  C10, as the code has it. Let a component of a catalog type have a declared output order
  that is not empty and does not list the pin. Pin name inference gives the same names
  and the same warnings as without the wires of that pin, and no name to the pin; the step
  of \<^const>\<open>convert\<close> for the component emits the same line and ends in the same state as
  without the wires of that pin, so the pin gets no parameter and no warning; and the loop
  over the output pins of the component allocates no identifier for the pin. (A component
  that reads the pin still allocates one for it when its input is resolved.)
\<close>

theorem undeclared_output_omitted:
  assumes "output_pin_ids c \<noteq> []" and "pin \<notin> set (output_pin_ids c)"
    and "fst (normalize_chip_name [] (comp_name c)) = Some nn"
    and "get_chip_spec (Some nn) = Some sp"
  shows "infer_comp ws (c\<lparr>output_wires := filter (\<lambda>e. fst e \<noteq> pin) (output_wires c)\<rparr>) =
           (fst (infer_comp ws c)\<lparr>output_wires := filter (\<lambda>e. fst e \<noteq> pin) (output_wires c)\<rparr>,
            snd (infer_comp ws c)) \<and>
         map_of (output_pin_names (fst (infer_comp ws c))) pin = map_of (output_pin_names c) pin \<and>
         convert_comp s (cid, c\<lparr>output_wires := filter (\<lambda>e. fst e \<noteq> pin) (output_wires c)\<rparr>) =
           convert_comp s (cid, c) \<and>
         map_of (wire_name_map (snd (convert_outputs s cid c (output_pin_ids_ordered c)))) (cid, pin) =
           map_of (wire_name_map s) (cid, pin)"
proof -
  have "pin \<notin> set (output_pin_ids_ordered c)"
    using assms(1,2) by (simp add: output_pin_ids_ordered_def)
  then show ?thesis
    using infer_comp_output_wires[OF assms(1,3,4)] infer_comp_output_names[OF assms]
      convert_comp_filter[OF assms(1,2)] convert_outputs_other_key
    by simp
qed

text \<open>The \<^verbatim>\<open>AND\<close> of \<^const>\<open>doc_undeclared\<close> and its pin 7.\<close>

theorem undeclared_output_omitted_witness:
  "map_of (output_pin_names (fst (infer_comp [] and_undeclared))) 7 = None \<and>
   convert_comp (FixedConverter doc_undeclared) (10, and_undeclared\<lparr>output_wires := []\<rparr>) =
     convert_comp (FixedConverter doc_undeclared) (10, and_undeclared)"
proof -
  have h1: "output_pin_ids and_undeclared \<noteq> []" by code_simp
  have h2: "7 \<notin> set (output_pin_ids and_undeclared)" by code_simp
  have h3: "fst (normalize_chip_name [] (comp_name and_undeclared)) = Some ''And''" by code_simp
  have h4: "get_chip_spec (Some ''And'') = Some \<lparr>inputs = [''a'', ''b''], outputs = [''out'']\<rparr>"
    by code_simp
  have e1: "map_of (output_pin_names and_undeclared) 7 = None" by code_simp
  have e2: "filter (\<lambda>e. fst e \<noteq> 7) (output_wires and_undeclared) = []" by code_simp
  from undeclared_output_omitted[OF h1 h2 h3 h4, of "[]" "FixedConverter doc_undeclared" 10] e1 e2
  show ?thesis by simp
qed

text \<open>
  The claim C10 says the pin receives no internal identifier. The pass over
  \<^const>\<open>doc_undeclared\<close> omits the pin from the \<^verbatim>\<open>AND\<close> and, resolving the input of
  the \<^verbatim>\<open>NOT\<close>, allocates \<^verbatim>\<open>w1\<close> for the pin 7 of the component 10.
\<close>

theorem undeclared_output_gets_identifier:
  "lowering_pass doc_undeclared =
     Inr (''// Converted from Digital Logic Sim (Sebastian Lague)\<newline>// Original chip: Xor\<newline>// Fixed converter - compliant with Nand2tetris HDL specification\<newline>\<newline>CHIP Xor {\<newline>    IN a, b;\<newline>    OUT out;\<newline>\<newline>    PARTS:\<newline>    And(a=a, b=b);\<newline>    Not(in=w1, out=out);\<newline>}'',
          []) \<and>
   wire_name_map (snd (projr (convert (FixedConverter doc_undeclared)))) = [((10, 7), ''w1'')]"
  by code_simp

end
